theory Spec2Isabelle
  imports Complex_Main "HOL-Library.Sublist" "HOL-Library.Multiset"
begin

section \<open>Data model of extract\_trades.py\<close>

text \<open>
  A row of the order-book DataFrame built in \<open>read_bulk_file\<close>: the attributes of one
  order, plus the columns \<open>date\<close> (also the DataFrame index: the snapshot time, here in
  epoch milliseconds), \<open>type_id\<close> and \<open>region_id\<close> that the reader adds.
\<close>

record order_row =
  date :: int
  order_id :: int
  type_id :: int
  region_id :: int
  price :: real
  volume :: int
  buy :: bool
  order_range :: string
  location_id :: int

text \<open>A row of the market-history DataFrame; only the columns the extractor reads.\<close>

record history_row =
  h_date :: int
  h_type_id :: int
  h_region_id :: int
  h_volume :: int

text \<open>The dictionary appended to \<open>inferred_trades\<close>.\<close>

record trade =
  tr_timestamp :: int
  tr_region_id :: int
  tr_type_id :: int
  tr_actual :: bool
  tr_buy :: bool
  tr_order_id :: int
  tr_price :: real
  tr_volume :: int
  tr_location :: string

text \<open>The exceptions the modelled code can raise.\<close>

datatype error = IndexError | KeyError | ValueError

text \<open>
  A float that may be NaN. Finite values are idealised as reals; NaN is kept apart because
  the extractor's behaviour on short history series depends on it.
\<close>

datatype fl = NaN | Fin real

fun fl_times :: "fl \<Rightarrow> real \<Rightarrow> fl" where
  "fl_times NaN c = NaN"
| "fl_times (Fin x) c = Fin (x * c)"

text \<open>\<open>v <= t\<close> for an integer volume and a float threshold: false when \<open>t\<close> is NaN.\<close>

fun le_fl :: "int \<Rightarrow> fl \<Rightarrow> bool" where
  "le_fl v NaN = False"
| "le_fl v (Fin x) = (real_of_int v \<le> x)"

section \<open>get\_market\_history\<close>

text \<open>
  \<open>pd.date_range(start, end)\<close> on two dates: every day from \<open>start\<close> to \<open>end\<close>, both
  included. Dates are day numbers.
\<close>

definition date_range :: "int \<Rightarrow> int \<Rightarrow> int list" where
  "date_range start end = [start..end]"

text \<open>The \<open>date_range\<close> local of \<open>get_market_history\<close>.\<close>

definition history_dates :: "int \<Rightarrow> int list" where
  "history_dates history_date = date_range (history_date - 6) (history_date - 1)"

text \<open>
  \<open>MarketHistory.get_data_frame\<close> belongs to the evekit library; it is the parameter
  \<open>get_data_frame\<close>, called with the dates, types and regions.
\<close>

definition get_market_history ::
  "(int list \<Rightarrow> int list \<Rightarrow> int list \<Rightarrow> history_row list) \<Rightarrow> int \<Rightarrow> int list \<Rightarrow> int list
     \<Rightarrow> history_row list" where
  "get_market_history get_data_frame history_date types regions =
     get_data_frame (history_dates history_date) types regions"

section \<open>str() of integers, booleans and optional locations\<close>

definition digit_char :: "nat \<Rightarrow> char" where
  "digit_char d = ''0123456789'' ! d"

fun str_nat :: "nat \<Rightarrow> string" where
  "str_nat n = (if n < 10 then [digit_char n] else str_nat (n div 10) @ [digit_char (n mod 10)])"

declare str_nat.simps [simp del]

definition str_int :: "int \<Rightarrow> string" where
  "str_int i = (if i < 0 then CHR ''-'' # str_nat (nat (- i)) else str_nat (nat i))"

definition str_bool :: "bool \<Rightarrow> string" where
  "str_bool b = (if b then ''True'' else ''False'')"

text \<open>\<open>str(location)\<close>, where \<open>location\<close> is a location id or Python's \<open>None\<close>.\<close>

fun str_location :: "int option \<Rightarrow> string" where
  "str_location None = ''None''"
| "str_location (Some i) = str_int i"

section \<open>infer\_trades: the per-type volume threshold\<close>

text \<open>
  \<open>Series.rolling(window=w, center=False).mean()\<close> of pandas: the entry at position \<open>i\<close>
  is the mean of the \<open>w\<close> entries ending at \<open>i\<close>, and NaN while fewer than \<open>w\<close> entries are
  there (\<open>min_periods\<close> defaults to the window).
\<close>

definition rolling_mean :: "nat \<Rightarrow> int list \<Rightarrow> fl list" where
  "rolling_mean window xs =
     map (\<lambda>i. if i + 1 < window then NaN
              else Fin (real_of_int (sum_list (take window (drop (i + 1 - window) xs)))
                        / real window))
         [0..<length xs]"

definition threshold_ratio :: real where
  "threshold_ratio = 4 / 100"

text \<open>
  The body of the loop over \<open>type_set\<close>, from the volume column of \<open>by_type\<close>, its
  rows in the order of the history frame. The frame is indexed by date, so the integer in
  \<open>thresh_series[-1]\<close> is a position: the last entry of a non-empty series. The integer
  0 of the empty case and the float of the other case are both values of \<open>fl\<close>.
\<close>

definition series_threshold :: "int list \<Rightarrow> fl" where
  "series_threshold by_type_volume =
     (let thresh_series = rolling_mean 5 by_type_volume
      in if length thresh_series = 0 then Fin 0
         else fl_times (last thresh_series) threshold_ratio)"

definition type_threshold :: "history_row list \<Rightarrow> int \<Rightarrow> fl" where
  "type_threshold market_history next_type =
     (let by_type = filter (\<lambda>h. h_type_id h = next_type) market_history
      in series_threshold (map h_volume by_type))"

text \<open>
  The threshold in the words of claim C5, for comparison with \<open>series_threshold\<close>: the
  mean of the five most recent available days of the series, times 0.04, and 0 for the
  empty series.
\<close>

definition spec_threshold :: "int list \<Rightarrow> fl" where
  "spec_threshold series =
     (if series = [] then Fin 0
      else (let recent = drop (length series - 5) series
            in Fin (real_of_int (sum_list recent) / real (length recent) * (4 / 100))))"

text \<open>The dictionary \<open>volume_threshold_map\<close>, filled by the loop over \<open>type_set\<close>.\<close>

definition volume_threshold_map :: "int list \<Rightarrow> history_row list \<Rightarrow> (int \<rightharpoonup> fl)" where
  "volume_threshold_map type_set market_history =
     foldl (\<lambda>m next_type. m(next_type \<mapsto> type_threshold market_history next_type))
       Map.empty type_set"

text \<open>
  The map that the loop over \<open>region_set\<close> builds for \<open>next_region\<close>: it is rebuilt in
  every iteration, from the history rows of that region.
\<close>

definition region_threshold_map ::
  "int list \<Rightarrow> history_row list \<Rightarrow> int \<Rightarrow> (int \<rightharpoonup> fl)" where
  "region_threshold_map type_set market_history_full next_region =
     (let market_history = filter (\<lambda>h. h_region_id h = next_region) market_history_full
      in volume_threshold_map type_set market_history)"

section \<open>infer\_trades: comparing consecutive snapshots\<close>

text \<open>
  \<open>list(order_book.groupby(order_book.index))\<close>: one pair (snapshot time, rows with that
  index) per distinct index value, in ascending order of the index.
\<close>

definition groupby_index :: "order_row list \<Rightarrow> (int \<times> order_row list) list" where
  "groupby_index order_book =
     map (\<lambda>k. (k, filter (\<lambda>r. date r = k) order_book)) (sort (remdups (map date order_book)))"

definition snap_pairs :: "order_row list \<Rightarrow> ((int \<times> order_row list) \<times> (int \<times> order_row list)) list" where
  "snap_pairs order_book = (let snap_list = groupby_index order_book in zip snap_list (tl snap_list))"

text \<open>
  \<open>pd.merge(current_snap, next_snap, on="order_id")\<close>: the inner join, a row for every pair
  of a left row \<open>x\<close> and a right row \<open>y\<close> with the same order id.
\<close>

definition merge_on_order_id :: "order_row list \<Rightarrow> order_row list \<Rightarrow> (order_row \<times> order_row) list" where
  "merge_on_order_id current_snap next_snap =
     concat (map (\<lambda>x. map (\<lambda>y. (x, y)) (filter (\<lambda>y. order_id y = order_id x) next_snap)) current_snap)"

text \<open>The value of \<open>location\<close> before \<open>str\<close>: \<open>None\<close> for a buy order not limited to a station.\<close>

definition location_of :: "order_row \<Rightarrow> int option" where
  "location_of next_line =
     (if buy next_line \<and> order_range next_line \<noteq> ''station'' then None
      else Some (location_id next_line))"

definition changed_trade :: "int \<Rightarrow> int \<Rightarrow> order_row \<times> order_row \<Rightarrow> trade" where
  "changed_trade next_time next_region next_line =
     (case next_line of (x, y) \<Rightarrow>
        \<lparr>tr_timestamp = next_time, tr_region_id = next_region, tr_type_id = type_id x,
         tr_actual = True, tr_buy = buy x, tr_order_id = order_id x, tr_price = price y,
         tr_volume = volume x - volume y, tr_location = str_location (location_of x)\<rparr>)"

text \<open>
  The first loop of a snapshot pair, over \<open>changed_orders\<close>; a row whose type is not in
  \<open>type_set\<close> is skipped by \<open>continue\<close>. The result is what the loop appends to
  \<open>inferred_trades\<close>.
\<close>

definition changed_trades ::
  "int list \<Rightarrow> int \<Rightarrow> int \<Rightarrow> order_row list \<Rightarrow> order_row list \<Rightarrow> trade list" where
  "changed_trades type_set next_time next_region current_snap next_snap =
     (let merged = merge_on_order_id current_snap next_snap;
          changed_orders = filter (\<lambda>(x, y). volume x \<noteq> volume y) merged
      in map (changed_trade next_time next_region)
           (filter (\<lambda>(x, y). type_id x \<in> set type_set) changed_orders))"

text \<open>
  \<open>set(current_snap.order_id).difference(set(next_snap.order_id))\<close>. Python leaves the
  iteration order of a set open; the model takes the order of first occurrence.
\<close>

definition removed_orders :: "order_row list \<Rightarrow> order_row list \<Rightarrow> int list" where
  "removed_orders current_snap next_snap =
     remdups (filter (\<lambda>i. i \<notin> set (map order_id next_snap)) (map order_id current_snap))"

definition removed_event :: "int \<Rightarrow> int \<Rightarrow> int \<Rightarrow> order_row \<Rightarrow> trade" where
  "removed_event next_time next_region oid next_line =
     \<lparr>tr_timestamp = next_time, tr_region_id = next_region, tr_type_id = type_id next_line,
      tr_actual = False, tr_buy = buy next_line, tr_order_id = oid, tr_price = price next_line,
      tr_volume = volume next_line, tr_location = str_location (location_of next_line)\<rparr>"

text \<open>
  One iteration of the second loop; \<open>thresholds\<close> is the dictionary
  \<open>volume_threshold_map\<close>. Every row of \<open>current_snap\<close> carries the index
  \<open>current[0]\<close>, so \<open>.loc[current[0]]\<close> selects all rows of the frame filtered by order id:
  a single row when there is one, a frame when there are several, and then the test
  \<open>next_line.type_id not in type_set\<close> compares a column with the members of
  \<open>type_set\<close> and raises ValueError (with no member there is nothing to compare, and the
  iteration is skipped).
\<close>

definition removed_trade ::
  "int list \<Rightarrow> (int \<rightharpoonup> fl) \<Rightarrow> int \<Rightarrow> int \<Rightarrow> order_row list \<Rightarrow> int \<Rightarrow> error + trade list" where
  "removed_trade type_set thresholds next_time next_region current_snap oid =
     (case filter (\<lambda>r. order_id r = oid) current_snap of
        [] \<Rightarrow> Inl KeyError
      | [next_line] \<Rightarrow>
          if type_id next_line \<notin> set type_set then Inr []
          else (case thresholds (type_id next_line) of
                  None \<Rightarrow> Inl KeyError
                | Some volume_threshold \<Rightarrow>
                    if le_fl (volume next_line) volume_threshold
                    then Inr [removed_event next_time next_region oid next_line]
                    else Inr [])
      | _ \<Rightarrow> if type_set = [] then Inr [] else Inl ValueError)"

text \<open>
  A loop whose iterations append to \<open>inferred_trades\<close> or raise: the appended trades of
  all iterations in order, or the first exception.
\<close>

fun collect :: "('a \<Rightarrow> error + 'b list) \<Rightarrow> 'a list \<Rightarrow> error + 'b list" where
  "collect f [] = Inr []"
| "collect f (x # xs) =
     (case f x of
        Inl e \<Rightarrow> Inl e
      | Inr ys \<Rightarrow> (case collect f xs of Inl e \<Rightarrow> Inl e | Inr zs \<Rightarrow> Inr (ys @ zs)))"

text \<open>The body of the loop over \<open>snap_pairs\<close>.\<close>

definition pair_trades ::
  "int list \<Rightarrow> (int \<rightharpoonup> fl) \<Rightarrow> int \<Rightarrow> int \<times> order_row list \<Rightarrow> int \<times> order_row list
     \<Rightarrow> error + trade list" where
  "pair_trades type_set thresholds next_region current next =
     (let current_snap = snd current; next_snap = snd next
      in case collect (removed_trade type_set thresholds (fst next) next_region current_snap)
                (removed_orders current_snap next_snap) of
           Inl e \<Rightarrow> Inl e
         | Inr removed \<Rightarrow>
             Inr (changed_trades type_set (fst next) next_region current_snap next_snap @ removed))"

text \<open>The body of the loop over \<open>region_set\<close>.\<close>

definition region_trades ::
  "int list \<Rightarrow> order_row list \<Rightarrow> history_row list \<Rightarrow> int \<Rightarrow> error + trade list" where
  "region_trades type_set order_book_full market_history_full next_region =
     (let order_book = filter (\<lambda>r. region_id r = next_region) order_book_full
      in collect (\<lambda>(current, next).
                    pair_trades type_set
                      (region_threshold_map type_set market_history_full next_region)
                      next_region current next)
           (snap_pairs order_book))"

definition infer_trades ::
  "int list \<Rightarrow> int list \<Rightarrow> order_row list \<Rightarrow> history_row list \<Rightarrow> error + trade list" where
  "infer_trades type_set region_set order_book_full market_history_full =
     collect (region_trades type_set order_book_full market_history_full) region_set"

section \<open>infer\_trades\_helper\<close>

text \<open>
  \<open>full_region_list\<close> is a list made from a set; Python leaves its order open, and the
  model takes the regions in order of first occurrence. A frame built from no rows has no
  columns, so \<open>x['region_id']\<close> raises KeyError on a book without rows, before the history
  is queried. \<open>full_book_list[0]\<close> raises IndexError on the empty list.
\<close>

definition infer_trades_helper ::
  "(int list \<Rightarrow> int list \<Rightarrow> int list \<Rightarrow> history_row list) \<Rightarrow> (int \<times> order_row list) list \<Rightarrow> int
     \<Rightarrow> error + trade list" where
  "infer_trades_helper get_data_frame next_types compute_date =
     (let full_type_list = map fst next_types;
          full_book_list = map snd next_types;
          full_region_list = remdups (concat (map (\<lambda>x. remdups (map region_id x)) full_book_list));
          market_history = get_market_history get_data_frame compute_date full_type_list full_region_list
      in if [] \<in> set full_book_list then Inl KeyError
         else if length full_book_list > 1
         then infer_trades full_type_list full_region_list (concat full_book_list) market_history
         else (case full_book_list of
                 [] \<Rightarrow> Inl IndexError
               | full_book # _ \<Rightarrow>
                   infer_trades full_type_list full_region_list full_book market_history))"

section \<open>write\_trades\<close>

text \<open>
  A line written to \<open>fobj\<close>: the text of a header line, or the seven values that the format
  string of a trade line receives (the timestamp already in epoch milliseconds).
\<close>

datatype out_line = Line string | Trade_line int string string int real int string

definition trade_line :: "trade \<Rightarrow> out_line" where
  "trade_line tt =
     Trade_line (tr_timestamp tt) (str_bool (tr_actual tt)) (str_bool (tr_buy tt))
       (tr_order_id tt) (tr_price tt) (tr_volume tt) (tr_location tt)"

definition type_list :: "trade list \<Rightarrow> int list" where
  "type_list trade_list = sort (remdups (map tr_type_id trade_list))"

text \<open>The list \<open>trades\<close> of one type, after its sort by timestamp (Python's sort is stable).\<close>

definition type_trades :: "trade list \<Rightarrow> int \<Rightarrow> trade list" where
  "type_trades trade_list next_type =
     sort_key tr_timestamp (filter (\<lambda>x. tr_type_id x = next_type) trade_list)"

definition region_list :: "trade list \<Rightarrow> int list" where
  "region_list trades = sort (remdups (map tr_region_id trades))"

definition region_trades_of :: "trade list \<Rightarrow> int \<Rightarrow> trade list" where
  "region_trades_of trades next_region = filter (\<lambda>x. tr_region_id x = next_region) trades"

text \<open>The body of the loop over \<open>region_list\<close>; \<open>fobj\<close> is the list of lines written so far.\<close>

definition write_region :: "trade list \<Rightarrow> out_line list \<Rightarrow> int \<Rightarrow> out_line list" where
  "write_region trades fobj next_region =
     (let region_trades = region_trades_of trades next_region
      in fobj @ [Line (str_int next_region), Line (str_nat (length region_trades))]
           @ map trade_line region_trades)"

text \<open>The body of the loop over \<open>type_list\<close>.\<close>

definition write_type :: "trade list \<Rightarrow> out_line list \<Rightarrow> int \<Rightarrow> out_line list" where
  "write_type trade_list fobj next_type =
     (let trades = type_trades trade_list next_type;
          regions = region_list trades
      in foldl (write_region trades)
           (fobj @ [Line (str_int next_type), Line (str_nat (length regions))]) regions)"

definition write_trades :: "out_line list \<Rightarrow> trade list \<Rightarrow> out_line list" where
  "write_trades fobj trade_list = foldl (write_type trade_list) fobj (type_list trade_list)"

section \<open>extract\_trades: collecting batches\<close>

text \<open>The closure \<open>process_batch\<close>: infer the trades of a batch and write them.\<close>

definition process_batch ::
  "(int list \<Rightarrow> int list \<Rightarrow> int list \<Rightarrow> history_row list) \<Rightarrow> int \<Rightarrow> out_line list
     \<Rightarrow> (int \<times> order_row list) list \<Rightarrow> error + out_line list" where
  "process_batch get_data_frame compute_date fout types =
     (case infer_trades_helper get_data_frame types compute_date of
        Inl e \<Rightarrow> Inl e
      | Inr inferred \<Rightarrow> Inr (write_trades fout inferred))"

text \<open>
  The variables that the callbacks share: the counter, the buffer and the output. The
  output is a type parameter, so that the callbacks can be run with a processing step
  that only records the batch it is handed.
\<close>

record 'o collector =
  type_count :: nat
  next_types :: "(int \<times> order_row list) list"
  fout :: 'o

text \<open>
  The callback \<open>find_trades\<close>, with the batch processing and \<open>type_batch_size\<close> as
  parameters. An exception of the processing leaves the callback.
\<close>

definition find_trades ::
  "('o \<Rightarrow> (int \<times> order_row list) list \<Rightarrow> error + 'o) \<Rightarrow> nat \<Rightarrow> 'o collector
     \<Rightarrow> int \<times> order_row list \<Rightarrow> error + 'o collector" where
  "find_trades process type_batch_size st offer =
     (case offer of (tid, df) \<Rightarrow>
        if type_count st < type_batch_size
        then (if length df > 0
              then Inr (st\<lparr>next_types := next_types st @ [(tid, df)],
                            type_count := type_count st + 1\<rparr>)
              else Inr st)
        else (case process (fout st) (next_types st) of
                Inl e \<Rightarrow> Inl e
              | Inr out \<Rightarrow> Inr \<lparr>type_count = 0, next_types = [], fout = out\<rparr>))"

text \<open>The callback \<open>end_read\<close>; it returns the output.\<close>

definition end_read ::
  "('o \<Rightarrow> (int \<times> order_row list) list \<Rightarrow> error + 'o) \<Rightarrow> nat \<Rightarrow> 'o collector \<Rightarrow> error + 'o" where
  "end_read process type_batch_size st =
     (if type_count st < type_batch_size then process (fout st) (next_types st)
      else Inr (fout st))"

text \<open>The calls of \<open>batch_callback\<close> that \<open>read_bulk_file\<close> makes, one per type of the archive.\<close>

fun offer_all ::
  "('o \<Rightarrow> (int \<times> order_row list) list \<Rightarrow> error + 'o) \<Rightarrow> nat \<Rightarrow> 'o collector
     \<Rightarrow> (int \<times> order_row list) list \<Rightarrow> error + 'o collector" where
  "offer_all process type_batch_size st [] = Inr st"
| "offer_all process type_batch_size st (offer # offers) =
     (case find_trades process type_batch_size st offer of
        Inl e \<Rightarrow> Inl e
      | Inr st' \<Rightarrow> offer_all process type_batch_size st' offers)"

text \<open>
  \<open>extract_trades\<close> on an archive that is read without failure: the order books of the
  archive are offered in archive order, then \<open>end_read\<close> is called.
\<close>

definition extract_trades ::
  "('o \<Rightarrow> (int \<times> order_row list) list \<Rightarrow> error + 'o) \<Rightarrow> nat \<Rightarrow> (int \<times> order_row list) list
     \<Rightarrow> 'o \<Rightarrow> error + 'o" where
  "extract_trades process type_batch_size archive out =
     (case offer_all process type_batch_size \<lparr>type_count = 0, next_types = [], fout = out\<rparr> archive of
        Inl e \<Rightarrow> Inl e
      | Inr st \<Rightarrow> end_read process type_batch_size st)"

text \<open>A processing step that appends the batch it is handed to a log of batches.\<close>

definition record_batch ::
  "(int \<times> order_row list) list list \<Rightarrow> (int \<times> order_row list) list
     \<Rightarrow> error + (int \<times> order_row list) list list" where
  "record_batch batches types = Inr (batches @ [types])"

text \<open>Running the processing step on a list of batches, one after the other.\<close>

fun run_batches ::
  "('o \<Rightarrow> (int \<times> order_row list) list \<Rightarrow> error + 'o) \<Rightarrow> 'o \<Rightarrow> (int \<times> order_row list) list list
     \<Rightarrow> error + 'o" where
  "run_batches process out [] = Inr out"
| "run_batches process out (b # bs) =
     (case process out b of Inl e \<Rightarrow> Inl e | Inr out' \<Rightarrow> run_batches process out' bs)"

section \<open>Example data\<close>

text \<open>
  A sell order seen at time 1000 with volume 10 and at time 2000 with volume 4 and price 5,
  and a buy order with volume 3, not limited to a station, seen at time 1000 only; both of
  type 34 in region 10.
\<close>

definition ex_sell_t0 :: order_row where
  "ex_sell_t0 = \<lparr>date = 1000, order_id = 1, type_id = 34, region_id = 10, price = 51 / 10,
     volume = 10, buy = False, order_range = ''region'', location_id = 60003760\<rparr>"

definition ex_sell_t1 :: order_row where
  "ex_sell_t1 = \<lparr>date = 2000, order_id = 1, type_id = 34, region_id = 10, price = 5,
     volume = 4, buy = False, order_range = ''region'', location_id = 60003760\<rparr>"

definition ex_buy_t0 :: order_row where
  "ex_buy_t0 = \<lparr>date = 1000, order_id = 2, type_id = 34, region_id = 10, price = 7,
     volume = 3, buy = True, order_range = ''region'', location_id = 60008494\<rparr>"

text \<open>Six days of history of type 34: a daily volume of 125 in region 10, of 250 in region 20.\<close>

definition ex_history :: "history_row list" where
  "ex_history =
     map (\<lambda>d. \<lparr>h_date = d, h_type_id = 34, h_region_id = 10, h_volume = 125\<rparr>) [14, 15, 16, 17, 18, 19]
     @ map (\<lambda>d. \<lparr>h_date = d, h_type_id = 34, h_region_id = 20, h_volume = 250\<rparr>) [14, 15, 16, 17, 18, 19]"

text \<open>Three days of history of type 34 in region 10.\<close>

definition ex_short_history :: "history_row list" where
  "ex_short_history =
     map (\<lambda>d. \<lparr>h_date = d, h_type_id = 34, h_region_id = 10, h_volume = 125\<rparr>) [17, 18, 19]"

text \<open>Trades of the types 5 and 3 in the regions 20 and 10, in no particular order.\<close>

definition ex_trade :: "int \<Rightarrow> int \<Rightarrow> int \<Rightarrow> int \<Rightarrow> trade" where
  "ex_trade t r ts oid =
     \<lparr>tr_timestamp = ts, tr_region_id = r, tr_type_id = t, tr_actual = True, tr_buy = False,
      tr_order_id = oid, tr_price = 5, tr_volume = 6, tr_location = ''60003760''\<rparr>"

definition ex_trades :: "trade list" where
  "ex_trades = [ex_trade 5 20 2000 1, ex_trade 3 20 3000 2, ex_trade 5 10 3000 3,
                ex_trade 3 10 2000 4, ex_trade 5 20 1000 5]"

section \<open>Facts about the volume threshold\<close>

lemma last_rolling_mean:
  "xs \<noteq> [] \<Longrightarrow> last (rolling_mean w xs) =
     (if length xs < w then NaN
      else Fin (real_of_int (sum_list (take w (drop (length xs - w) xs))) / real w))"
  by (cases xs rule: rev_cases) (auto simp: rolling_mean_def)

lemma series_threshold_empty: "series_threshold [] = Fin 0"
  by (simp add: series_threshold_def rolling_mean_def)

lemma series_threshold_short:
  "xs \<noteq> [] \<Longrightarrow> length xs < 5 \<Longrightarrow> series_threshold xs = NaN"
  using last_rolling_mean [of xs 5]
  by (simp add: series_threshold_def Let_def rolling_mean_def)

lemma series_threshold_full:
  "5 \<le> length xs \<Longrightarrow>
     series_threshold xs = Fin (real_of_int (sum_list (drop (length xs - 5) xs)) / 5 * (4 / 100))"
proof -
  assume len: "5 \<le> length xs"
  then have ne: "xs \<noteq> []" by auto
  have "take 5 (drop (length xs - 5) xs) = drop (length xs - 5) xs"
    using len by simp
  then show ?thesis
    using last_rolling_mean [OF ne, of 5] len ne
    by (simp add: series_threshold_def Let_def threshold_ratio_def rolling_mean_def)
qed

lemma foldl_upd_lookup:
  "foldl (\<lambda>m k. m(k \<mapsto> f k)) m ts t = (if t \<in> set ts then Some (f t) else m t)"
  by (induction ts arbitrary: m) auto

lemma volume_threshold_map_lookup:
  "volume_threshold_map type_set mh t =
     (if t \<in> set type_set then Some (type_threshold mh t) else None)"
  by (simp add: volume_threshold_map_def foldl_upd_lookup)

lemma region_threshold_map_lookup:
  "region_threshold_map type_set mh R t =
     (if t \<in> set type_set
      then Some (type_threshold (filter (\<lambda>h. h_region_id h = R) mh) t) else None)"
  by (simp add: region_threshold_map_def volume_threshold_map_lookup)

lemma ex_threshold_10: "region_threshold_map [34] ex_history 10 34 = Some (Fin 5)"
  by (simp add: region_threshold_map_lookup type_threshold_def ex_history_def series_threshold_full)

section \<open>Facts about the loops of infer\_trades\<close>

lemma collect_Inr:
  "(\<And>x. x \<in> set xs \<Longrightarrow> f x = Inr (g x)) \<Longrightarrow> collect f xs = Inr (concat (map g xs))"
  by (induction xs) auto

lemma collect_map: "collect f (map k xs) = collect (\<lambda>x. f (k x)) xs"
  by (induction xs) (auto split: sum.splits)

lemma collect_member:
  "collect f xs = Inr ys \<Longrightarrow> e \<in> set ys \<Longrightarrow> \<exists>x\<in>set xs. \<exists>zs. f x = Inr zs \<and> e \<in> set zs"
  by (induction xs arbitrary: ys) (auto split: sum.splits)

lemma filter_unique_row:
  "distinct (map order_id cur) \<Longrightarrow> r \<in> set cur \<Longrightarrow> filter (\<lambda>x. order_id x = order_id r) cur = [r]"
  by (induction cur) (auto simp: filter_empty_conv image_iff)

lemma removed_trade_row:
  assumes "distinct (map order_id cur)" and "r \<in> set cur"
  shows "removed_trade ts (region_threshold_map ts mh R) t1 R cur (order_id r) =
     Inr (if type_id r \<in> set ts
             \<and> le_fl (volume r) (type_threshold (filter (\<lambda>h. h_region_id h = R) mh) (type_id r))
          then [removed_event t1 R (order_id r) r] else [])"
  using assms by (simp add: removed_trade_def filter_unique_row region_threshold_map_lookup)

lemma removed_orders_distinct:
  assumes "distinct (map order_id cur)"
  shows "removed_orders cur nxt = map order_id (filter (\<lambda>r. order_id r \<notin> order_id ` set nxt) cur)"
proof -
  have "distinct (filter (\<lambda>i. i \<notin> set (map order_id nxt)) (map order_id cur))"
    using assms by simp
  then show ?thesis
    by (simp add: removed_orders_def filter_map comp_def)
qed

lemma pair_trades_distinct:
  assumes "distinct (map order_id (snd current))"
  shows "pair_trades ts (region_threshold_map ts mh R) R current next =
     Inr (changed_trades ts (fst next) R (snd current) (snd next)
          @ concat (map (\<lambda>r. if type_id r \<in> set ts
                  \<and> le_fl (volume r) (type_threshold (filter (\<lambda>h. h_region_id h = R) mh) (type_id r))
                then [removed_event (fst next) R (order_id r) r] else [])
              (filter (\<lambda>r. order_id r \<notin> order_id ` set (snd next)) (snd current))))"
proof -
  let ?rows = "filter (\<lambda>r. order_id r \<notin> order_id ` set (snd next)) (snd current)"
  let ?g = "\<lambda>r. if type_id r \<in> set ts
                  \<and> le_fl (volume r) (type_threshold (filter (\<lambda>h. h_region_id h = R) mh) (type_id r))
                then [removed_event (fst next) R (order_id r) r] else []"
  have "collect (\<lambda>r. removed_trade ts (region_threshold_map ts mh R) (fst next) R (snd current) (order_id r)) ?rows
          = Inr (concat (map ?g ?rows))"
    by (rule collect_Inr) (simp add: removed_trade_row [OF assms])
  then show ?thesis
    by (simp add: pair_trades_def Let_def removed_orders_distinct [OF assms] collect_map)
qed

lemma filter_key_concat:
  assumes "\<And>y e. y \<in> set xs \<Longrightarrow> e \<in> set (h y) \<Longrightarrow> key e = k y"
  shows "filter (\<lambda>e. key e = c) (concat (map h xs)) = concat (map h (filter (\<lambda>y. k y = c) xs))"
  using assms
proof (induction xs)
  case Nil
  then show ?case by simp
next
  case (Cons a xs)
  have keys: "\<forall>e\<in>set (h a). key e = k a" using Cons.prems by simp
  have "filter (\<lambda>e. key e = c) (h a) = (if k a = c then h a else [])"
    using keys by (auto simp: filter_empty_conv intro: filter_True)
  moreover have "filter (\<lambda>e. key e = c) (concat (map h xs)) = concat (map h (filter (\<lambda>y. k y = c) xs))"
    using Cons by simp
  ultimately show ?case by simp
qed

lemma changed_trades_member:
  "e \<in> set (changed_trades ts t1 R cur nxt) \<Longrightarrow>
     \<exists>x\<in>set cur. \<exists>y\<in>set nxt. order_id x = order_id y \<and> e = changed_trade t1 R (x, y)
        \<and> volume x \<noteq> volume y \<and> type_id x \<in> set ts"
proof -
  assume "e \<in> set (changed_trades ts t1 R cur nxt)"
  then obtain x y where xy: "x \<in> set cur" "y \<in> set nxt" "order_id y = order_id x"
      "volume x \<noteq> volume y" "type_id x \<in> set ts" "e = changed_trade t1 R (x, y)"
    by (auto simp: changed_trades_def merge_on_order_id_def)
  show ?thesis
    by (rule bexI [OF _ xy(1)], rule bexI [OF _ xy(2)]) (simp add: xy)
qed

lemma filter_merge:
  "filter (\<lambda>p. order_id (fst p) = c) (merge_on_order_id cur nxt) =
     merge_on_order_id (filter (\<lambda>x. order_id x = c) cur) nxt"
  by (induction cur) (auto simp: merge_on_order_id_def filter_empty_conv)


lemma merge_unique:
  assumes "distinct (map order_id cur)" and "distinct (map order_id nxt)"
      and "x \<in> set cur" and "y \<in> set nxt" and "order_id x = order_id y"
  shows "filter (\<lambda>p. order_id (fst p) = order_id x) (merge_on_order_id cur nxt) = [(x, y)]"
proof -
  have "filter (\<lambda>z. order_id z = order_id x) nxt = [y]"
    using filter_unique_row [OF assms(2) assms(4)] assms(5) by simp
  then have "merge_on_order_id [x] nxt = [(x, y)]"
    by (simp add: merge_on_order_id_def)
  then show ?thesis
    by (simp add: filter_merge filter_unique_row [OF assms(1) assms(3)])
qed

lemma changed_trades_unique:
  assumes "distinct (map order_id cur)" and "distinct (map order_id nxt)"
      and "x \<in> set cur" and "y \<in> set nxt" and "order_id x = order_id y"
  shows "filter (\<lambda>e. tr_order_id e = order_id x) (changed_trades ts t1 R cur nxt) =
     (if volume x \<noteq> volume y \<and> type_id x \<in> set ts then [changed_trade t1 R (x, y)] else [])"
proof -
  have key: "(\<lambda>p. tr_order_id (changed_trade t1 R p) = order_id x) = (\<lambda>p. order_id (fst p) = order_id x)"
    by (auto simp: changed_trade_def)
  have "filter (\<lambda>e. tr_order_id e = order_id x) (changed_trades ts t1 R cur nxt) =
      map (changed_trade t1 R)
        (filter (\<lambda>(x, y). type_id x \<in> set ts)
          (filter (\<lambda>(x, y). volume x \<noteq> volume y)
            (filter (\<lambda>p. order_id (fst p) = order_id x) (merge_on_order_id cur nxt))))"
    unfolding changed_trades_def Let_def filter_map comp_def key
    by (simp add: conj_commute conj_left_commute)
  then show ?thesis
    by (simp add: merge_unique [OF assms])
qed

lemma removed_trade_member:
  assumes "removed_trade ts thr t1 R cur oid = Inr us" and "e \<in> set us"
  shows "\<exists>row v. thr (type_id row) = Some v \<and> le_fl (volume row) v
           \<and> e = removed_event t1 R oid row"
proof -
  from assms obtain row v where "thr (type_id row) = Some v" "le_fl (volume row) v"
      "e = removed_event t1 R oid row"
    by (auto simp: removed_trade_def split: list.splits if_splits option.splits)
  then show ?thesis by blast
qed

lemma pair_trades_member:
  assumes "pair_trades ts thr R current next = Inr ws" and "e \<in> set ws"
  shows "tr_region_id e = R \<and>
     (tr_actual e \<or> (\<exists>(row :: order_row) v. thr (type_id row) = Some v \<and> le_fl (volume row) v
                         \<and> tr_type_id e = type_id row))"
proof -
  from assms(1) obtain removed where
    coll: "collect (removed_trade ts thr (fst next) R (snd current))
            (removed_orders (snd current) (snd next)) = Inr removed"
    and parts: "ws = changed_trades ts (fst next) R (snd current) (snd next) @ removed"
    by (auto simp: pair_trades_def Let_def split: sum.splits)
  from assms(2) parts consider
    "e \<in> set (changed_trades ts (fst next) R (snd current) (snd next))" | "e \<in> set removed"
    by auto
  then show ?thesis
  proof cases
    case 1
    then show ?thesis
      by (auto dest!: changed_trades_member simp: changed_trade_def)
  next
    case 2
    from collect_member [OF coll 2] obtain oid us where
      "removed_trade ts thr (fst next) R (snd current) oid = Inr us" "e \<in> set us" by blast
    from removed_trade_member [OF this] obtain row v where
      thr: "thr (type_id row) = Some v" "le_fl (volume row) v"
      and ev: "e = removed_event (fst next) R oid row" by blast
    from ev have flds: "tr_region_id e = R" "tr_type_id e = type_id row"
      by (simp_all add: removed_event_def)
    from thr flds(2) have "\<exists>(row :: order_row) v. thr (type_id row) = Some v \<and> le_fl (volume row) v
        \<and> tr_type_id e = type_id row" by blast
    with flds(1) show ?thesis by simp
  qed
qed

lemma region_trades_member:
  assumes "region_trades ts book mh R = Inr zs" and "e \<in> set zs"
  shows "tr_region_id e = R \<and>
     (tr_actual e \<or> (\<exists>(row :: order_row) v. region_threshold_map ts mh R (type_id row) = Some v
                         \<and> le_fl (volume row) v \<and> tr_type_id e = type_id row))"
proof -
  from collect_member [OF assms(1) [unfolded region_trades_def Let_def] assms(2)]
  obtain cur nxt ws where
    "pair_trades ts (region_threshold_map ts mh R) R cur nxt = Inr ws" "e \<in> set ws"
    by auto
  from pair_trades_member [OF this] show ?thesis .
qed

lemma ex_groupby: "groupby_index [ex_sell_t0, ex_buy_t0, ex_sell_t1] =
   [(1000, [ex_sell_t0, ex_buy_t0]), (2000, [ex_sell_t1])]"
  by (simp add: groupby_index_def ex_sell_t0_def ex_buy_t0_def ex_sell_t1_def)

lemma ex_short_threshold: "region_threshold_map [34] ex_short_history 10 34 = Some NaN"
  by (simp add: region_threshold_map_lookup type_threshold_def ex_short_history_def
      series_threshold_short)

lemma ex_short_run:
  "infer_trades [34] [10] [ex_sell_t0, ex_buy_t0, ex_sell_t1] ex_short_history =
     Inr [\<lparr>tr_timestamp = 2000, tr_region_id = 10, tr_type_id = 34, tr_actual = True,
           tr_buy = False, tr_order_id = 1, tr_price = 5, tr_volume = 6,
           tr_location = str_int 60003760\<rparr>]"
proof -
  have book: "filter (\<lambda>r. region_id r = 10) [ex_sell_t0, ex_buy_t0, ex_sell_t1]
      = [ex_sell_t0, ex_buy_t0, ex_sell_t1]"
    by (simp add: ex_sell_t0_def ex_buy_t0_def ex_sell_t1_def)
  have pair: "pair_trades [34] (region_threshold_map [34] ex_short_history 10) 10
            (1000, [ex_sell_t0, ex_buy_t0]) (2000, [ex_sell_t1]) = Inr
         [\<lparr>tr_timestamp = 2000, tr_region_id = 10, tr_type_id = 34, tr_actual = True,
           tr_buy = False, tr_order_id = 1, tr_price = 5, tr_volume = 6,
           tr_location = str_int 60003760\<rparr>]"
    by (simp add: pair_trades_def removed_orders_def removed_trade_def changed_trades_def
      merge_on_order_id_def changed_trade_def removed_event_def location_of_def
      ex_short_threshold ex_sell_t0_def ex_buy_t0_def ex_sell_t1_def)
  have "region_trades [34] [ex_sell_t0, ex_buy_t0, ex_sell_t1] ex_short_history 10 = Inr
         [\<lparr>tr_timestamp = 2000, tr_region_id = 10, tr_type_id = 34, tr_actual = True,
           tr_buy = False, tr_order_id = 1, tr_price = 5, tr_volume = 6,
           tr_location = str_int 60003760\<rparr>]"
    unfolding region_trades_def Let_def book snap_pairs_def ex_groupby
    by (simp add: pair)
  then show ?thesis
    by (simp add: infer_trades_def)
qed

section \<open>Facts about str\<close>

lemma digit_char_digit: "d < 10 \<Longrightarrow> digit_char d \<in> set ''0123456789''"
  unfolding digit_char_def by (rule nth_mem) simp

lemma str_nat_digits: "set (str_nat n) \<subseteq> set ''0123456789''"
proof (induction n rule: str_nat.induct)
  case (1 n)
  show ?case
  proof (cases "n < 10")
    case True
    then show ?thesis using digit_char_digit [of n] by (subst str_nat.simps) simp
  next
    case False
    have "n mod 10 < 10" by simp
    then have "digit_char (n mod 10) \<in> set ''0123456789''" by (rule digit_char_digit)
    then show ?thesis using False 1 by (subst str_nat.simps) simp
  qed
qed

lemma str_nat_no_N: "CHR ''N'' \<notin> set (str_nat k)"
proof
  assume "CHR ''N'' \<in> set (str_nat k)"
  then have "CHR ''N'' \<in> set ''0123456789''" using str_nat_digits [of k] by (rule subsetD [rotated])
  then show False by simp
qed

lemma str_int_not_None: "str_int i \<noteq> ''None''"
proof
  assume eq: "str_int i = ''None''"
  have "CHR ''N'' \<notin> set (str_int i)"
    by (simp add: str_int_def str_nat_no_N)
  then show False unfolding eq by simp
qed

lemma str_location_None:
  "(str_location (location_of r) = ''None'') = (buy r \<and> order_range r \<noteq> ''station'')"
  by (simp add: location_of_def str_int_not_None)

lemma str_location_id:
  "str_location (location_of r) \<noteq> ''None'' \<Longrightarrow> str_location (location_of r) = str_int (location_id r)"
  by (simp add: location_of_def split: if_splits)

section \<open>The volume threshold\<close>

text \<open>
  Claim C2, as stated: one threshold per type, shared by all regions of a batch. With the
  example history, type 34 has the threshold 5 in region 10 and the threshold 10 in region
  20.
\<close>

theorem region_thresholds_differ_counterexample:
  "region_threshold_map [34] ex_history 10 34 = Some (Fin 5)
   \<and> region_threshold_map [34] ex_history 20 34 = Some (Fin 10)
   \<and> region_threshold_map [34] ex_history 10 34 \<noteq> region_threshold_map [34] ex_history 20 34"
  by (simp add: region_threshold_map_lookup type_threshold_def ex_history_def series_threshold_full)

text \<open>
  Claim C2, amended: the threshold map is rebuilt for every region, and the threshold of a
  type of the type set in region \<open>R\<close> is computed from the volumes of the history rows of
  that type and that region only; two regions have the same threshold for a type when
  these series of volumes are the same.
\<close>

theorem region_threshold_map_series:
  "region_threshold_map type_set market_history_full R T =
     (if T \<in> set type_set
      then Some (series_threshold
             (map h_volume (filter (\<lambda>h. h_region_id h = R \<and> h_type_id h = T) market_history_full)))
      else None)"
  by (simp add: region_threshold_map_lookup type_threshold_def)

text \<open>
  Claim C5, as stated: for every series the threshold is the mean of the 5 most recent
  available days times 0.04. The series of a single day of volume 100 has the threshold
  NaN, not 4.
\<close>

theorem short_series_counterexample:
  "series_threshold [100] = NaN \<and> spec_threshold [100] = Fin 4
   \<and> series_threshold [100] \<noteq> spec_threshold [100]"
  by (simp add: series_threshold_short spec_threshold_def)

text \<open>
  Claim C5, amended: the threshold of a type is computed from the volumes of its history
  rows; it is exactly 0 for the empty series, so that only a volume of at most 0
  qualifies; for a series of at least 5 entries it is the mean of the 5 most recent
  entries times 0.04; for a non-empty series of fewer than 5 entries it is NaN.
\<close>

theorem series_threshold_cases:
  "type_threshold market_history T =
     series_threshold (map h_volume (filter (\<lambda>h. h_type_id h = T) market_history))
   \<and> series_threshold [] = Fin 0
   \<and> (\<forall>v. le_fl v (series_threshold []) = (v \<le> 0))
   \<and> (5 \<le> length xs \<longrightarrow>
        series_threshold xs = Fin (real_of_int (sum_list (drop (length xs - 5) xs)) / 5 * (4 / 100))
        \<and> series_threshold xs = spec_threshold xs)
   \<and> (xs \<noteq> [] \<and> length xs < 5 \<longrightarrow> series_threshold xs = NaN)"
proof -
  have "spec_threshold xs = Fin (real_of_int (sum_list (drop (length xs - 5) xs)) / 5 * (4 / 100))"
    if "5 \<le> length xs"
  proof -
    from that have "xs \<noteq> []" by auto
    moreover from that have "real (length xs - (length xs - 5)) = 5" by simp
    ultimately show ?thesis by (simp add: spec_threshold_def Let_def)
  qed
  then show ?thesis
    by (simp add: type_threshold_def series_threshold_empty series_threshold_short
        series_threshold_full)
qed

theorem series_threshold_cases_witness:
  "series_threshold [] = Fin 0
   \<and> series_threshold [125, 125, 125, 125, 125, 125] = Fin 5
   \<and> series_threshold [100, 100] = NaN"
  using series_threshold_cases [of "[]" 34 "[125, 125, 125, 125, 125, 125]"]
    series_threshold_cases [of "[]" 34 "[100, 100]"]
  by simp

section \<open>Trades of a pair of snapshots and of a run\<close>



lemma pair_changed_order:
  assumes "distinct (map order_id (snd current))"
      and "distinct (map order_id (snd next))"
      and "x \<in> set (snd current)"
      and "y \<in> set (snd next)"
      and "order_id x = order_id y"
      and "volume x \<noteq> volume y"
      and "type_id x \<in> set type_set"
  shows "\<exists>evs. pair_trades type_set (region_threshold_map type_set mh R) R current next = Inr evs
     \<and> filter (\<lambda>e. tr_order_id e = order_id x) evs =
         [\<lparr>tr_timestamp = fst next, tr_region_id = R, tr_type_id = type_id x,
           tr_actual = True, tr_buy = buy x, tr_order_id = order_id x,
           tr_price = price y, tr_volume = volume x - volume y,
           tr_location = str_location (location_of x)\<rparr>]"
proof -
  let ?thr = "type_threshold (filter (\<lambda>h. h_region_id h = R) mh)"
  let ?g = "\<lambda>r. if type_id r \<in> set type_set \<and> le_fl (volume r) (?thr (type_id r))
                then [removed_event (fst next) R (order_id r) r] else []"
  let ?rows = "filter (\<lambda>r. order_id r \<notin> order_id ` set (snd next)) (snd current)"
  let ?changed = "changed_trades type_set (fst next) R (snd current) (snd next)"
  have run: "pair_trades type_set (region_threshold_map type_set mh R) R current next
      = Inr (?changed @ concat (map ?g ?rows))"
    by (rule pair_trades_distinct [OF assms(1)])
  have changed: "filter (\<lambda>e. tr_order_id e = order_id x) ?changed = [changed_trade (fst next) R (x, y)]"
    using changed_trades_unique [OF assms(1-5)] assms(6,7) by simp
  have "filter (\<lambda>z. order_id z = order_id x) ?rows = []"
    using assms(4,5) by (auto simp: filter_empty_conv)
  moreover have "filter (\<lambda>e. tr_order_id e = order_id x) (concat (map ?g ?rows))
      = concat (map ?g (filter (\<lambda>z. order_id z = order_id x) ?rows))"
    by (rule filter_key_concat) (auto simp: removed_event_def split: if_splits)
  ultimately have removed: "filter (\<lambda>e. tr_order_id e = order_id x) (concat (map ?g ?rows)) = []"
    by simp
  show ?thesis
    using run changed removed by (simp add: changed_trade_def)
qed

lemma filter_unique:
  "distinct (map k xs) \<Longrightarrow> x \<in> set xs \<Longrightarrow> filter (\<lambda>y. k y = k x) xs = [x]"
  by (induction xs) (auto simp: filter_empty_conv image_iff)

lemma groupby_index_keys:
  "map fst (groupby_index order_book) = sort (remdups (map date order_book))"
  by (simp add: groupby_index_def comp_def)

lemma snap_pairs_next_times:
  "map (\<lambda>p. fst (snd p)) (snap_pairs order_book) = tl (sort (remdups (map date order_book)))"
proof -
  let ?sl = "groupby_index order_book"
  have "map snd (zip ?sl (tl ?sl)) = tl ?sl"
    by (simp add: map_snd_zip_take min_def)
  then have "map (\<lambda>p. fst (snd p)) (zip ?sl (tl ?sl)) = map fst (tl ?sl)"
    by (metis (no_types, lifting) map_map comp_def map_eq_conv)
  then show ?thesis
    by (simp add: snap_pairs_def Let_def map_tl groupby_index_keys)
qed

lemma snap_pairs_distinct: "distinct (map (\<lambda>p. fst (snd p)) (snap_pairs order_book))"
  by (simp add: snap_pairs_next_times distinct_tl)

lemma snap_pairs_member:
  "(current, next) \<in> set (snap_pairs order_book) \<Longrightarrow>
     current \<in> set (groupby_index order_book) \<and> next \<in> set (groupby_index order_book)"
proof -
  assume "(current, next) \<in> set (snap_pairs order_book)"
  then have "current \<in> set (groupby_index order_book)"
    and "next \<in> set (tl (groupby_index order_book))"
    by (auto simp: snap_pairs_def Let_def dest: set_zip_leftD set_zip_rightD)
  then show ?thesis by (cases "groupby_index order_book") auto
qed

lemma collect_projr:
  "(\<And>x. x \<in> set xs \<Longrightarrow> \<exists>ys. f x = Inr ys) \<Longrightarrow>
     collect f xs = Inr (concat (map (\<lambda>x. projr (f x)) xs))"
  by (rule collect_Inr) fastforce

lemma pair_trades_timestamp:
  assumes "pair_trades ts thr R current next = Inr ws" and "e \<in> set ws"
  shows "tr_timestamp e = fst next \<and> tr_region_id e = R"
proof -
  from assms(1) obtain removed where
    coll: "collect (removed_trade ts thr (fst next) R (snd current))
            (removed_orders (snd current) (snd next)) = Inr removed"
    and parts: "ws = changed_trades ts (fst next) R (snd current) (snd next) @ removed"
    by (auto simp: pair_trades_def Let_def split: sum.splits)
  from assms(2) parts consider
    "e \<in> set (changed_trades ts (fst next) R (snd current) (snd next))" | "e \<in> set removed"
    by auto
  then show ?thesis
  proof cases
    case 1
    then show ?thesis
      by (auto dest!: changed_trades_member simp: changed_trade_def)
  next
    case 2
    from collect_member [OF coll 2] obtain oid us where
      "removed_trade ts thr (fst next) R (snd current) oid = Inr us" "e \<in> set us" by blast
    from removed_trade_member [OF this] show ?thesis
      by (auto simp: removed_event_def)
  qed
qed

lemma infer_trades_filter:
  assumes uniq: "\<forall>R'\<in>set region_set.
             \<forall>s\<in>set (groupby_index (filter (\<lambda>r. region_id r = R') order_book_full)).
               distinct (map order_id (snd s))"
      and regions: "distinct region_set" "R \<in> set region_set"
      and pair: "(current, next) \<in> set (snap_pairs (filter (\<lambda>r. region_id r = R) order_book_full))"
  shows "\<exists>evs ws. infer_trades type_set region_set order_book_full market_history_full = Inr evs
     \<and> pair_trades type_set (region_threshold_map type_set market_history_full R) R current next = Inr ws
     \<and> filter (\<lambda>e. tr_region_id e = R \<and> tr_timestamp e = fst next) evs = ws"
proof -
  let ?thr = "\<lambda>R'. region_threshold_map type_set market_history_full R'"
  let ?book = "\<lambda>R'. filter (\<lambda>r. region_id r = R') order_book_full"
  let ?f = "\<lambda>R' p. pair_trades type_set (?thr R') R' (fst p) (snd p)"
  let ?G = "\<lambda>R'. concat (map (\<lambda>p. projr (?f R' p)) (snap_pairs (?book R')))"
  have ok: "\<exists>ys. ?f R' p = Inr ys" if "R' \<in> set region_set" "p \<in> set (snap_pairs (?book R'))" for R' p
  proof -
    from that(2) have "fst p \<in> set (groupby_index (?book R'))"
      using snap_pairs_member [of "fst p" "snd p" "?book R'"] by simp
    with uniq that(1) have "distinct (map order_id (snd (fst p)))" by blast
    from pair_trades_distinct [OF this] show ?thesis by blast
  qed
  have region: "region_trades type_set order_book_full market_history_full R' = Inr (?G R')"
    if "R' \<in> set region_set" for R'
  proof -
    have "collect (?f R') (snap_pairs (?book R')) = Inr (?G R')"
      by (rule collect_projr) (rule ok [OF that])
    then show ?thesis
      by (simp add: region_trades_def Let_def case_prod_unfold)
  qed
  have run: "infer_trades type_set region_set order_book_full market_history_full
      = Inr (concat (map ?G region_set))"
    unfolding infer_trades_def by (rule collect_Inr) (rule region)
  have G_region: "tr_region_id e = R' \<and> (\<exists>p\<in>set (snap_pairs (?book R')). tr_timestamp e = fst (snd p))"
    if "R' \<in> set region_set" "e \<in> set (?G R')" for R' e
  proof -
    from that(2) obtain p where p: "p \<in> set (snap_pairs (?book R'))" "e \<in> set (projr (?f R' p))"
      by auto
    from ok [OF that(1) p(1)] obtain ys where ys: "?f R' p = Inr ys" by blast
    with p(2) have "e \<in> set ys" by simp
    from pair_trades_timestamp [OF ys this] p(1) show ?thesis by blast
  qed
  have "filter (\<lambda>e. tr_region_id e = R) (concat (map ?G region_set))
      = concat (map ?G (filter (\<lambda>y. y = R) region_set))"
    by (rule filter_key_concat) (use G_region in blast)
  moreover have "filter (\<lambda>y. y = R) region_set = [R]"
    using filter_unique [of "\<lambda>y. y" region_set R] regions by simp
  ultimately have step1: "filter (\<lambda>e. tr_region_id e = R) (concat (map ?G region_set)) = ?G R"
    by simp
  have key: "tr_timestamp e = fst (snd p)"
    if "p \<in> set (snap_pairs (?book R))" "e \<in> set (projr (?f R p))" for p e
  proof -
    from ok [OF regions(2) that(1)] obtain ys where ys: "?f R p = Inr ys" by blast
    with that(2) have "e \<in> set ys" by simp
    from pair_trades_timestamp [OF ys this] show ?thesis by simp
  qed
  have "filter (\<lambda>e. tr_timestamp e = fst next) (?G R)
      = concat (map (\<lambda>p. projr (?f R p))
          (filter (\<lambda>p. fst (snd p) = fst next) (snap_pairs (?book R))))"
    by (rule filter_key_concat) (rule key)
  moreover have "filter (\<lambda>p. fst (snd p) = fst next) (snap_pairs (?book R)) = [(current, next)]"
    using filter_unique [OF snap_pairs_distinct pair] by simp
  ultimately have step2: "filter (\<lambda>e. tr_timestamp e = fst next) (?G R) = projr (?f R (current, next))"
    by simp
  from ok [OF regions(2) pair] obtain ws where
    ws: "pair_trades type_set (?thr R) R current next = Inr ws" by auto
  have "filter (\<lambda>e. tr_region_id e = R \<and> tr_timestamp e = fst next) (concat (map ?G region_set))
      = filter (\<lambda>e. tr_timestamp e = fst next) (filter (\<lambda>e. tr_region_id e = R) (concat (map ?G region_set)))"
    by simp
  also have "\<dots> = ws" unfolding step1 step2 using ws by simp
  finally show ?thesis using run ws by blast
qed

lemma ex_book:
  "filter (\<lambda>r. region_id r = 10) [ex_sell_t0, ex_buy_t0, ex_sell_t1]
     = [ex_sell_t0, ex_buy_t0, ex_sell_t1]"
  by (simp add: ex_sell_t0_def ex_buy_t0_def ex_sell_t1_def)

lemma ex_snap_pairs:
  "snap_pairs [ex_sell_t0, ex_buy_t0, ex_sell_t1]
     = [((1000, [ex_sell_t0, ex_buy_t0]), (2000, [ex_sell_t1]))]"
  by (simp add: snap_pairs_def ex_groupby)

lemma ex_unique:
  "\<forall>R'\<in>set [10].
     \<forall>s\<in>set (groupby_index (filter (\<lambda>r. region_id r = R') [ex_sell_t0, ex_buy_t0, ex_sell_t1])).
       distinct (map order_id (snd s))"
  unfolding list.set ball_simps ex_book ex_groupby
  by (simp add: ex_sell_t0_def ex_buy_t0_def)

lemma removed_trade_origin:
  assumes "removed_trade ts thr t1 R cur oid = Inr us" and "e \<in> set us"
  shows "\<exists>row\<in>set cur. order_id row = oid \<and> e = removed_event t1 R oid row"
proof -
  from assms obtain row where row: "filter (\<lambda>r. order_id r = oid) cur = [row]"
    and e: "e = removed_event t1 R oid row"
    by (auto simp: removed_trade_def split: list.splits if_splits option.splits)
  from row have "row \<in> set (filter (\<lambda>r. order_id r = oid) cur)" by simp
  then have "row \<in> set cur" "order_id row = oid" by simp_all
  with e show ?thesis by blast
qed

lemma pair_trades_origin:
  assumes "pair_trades ts thr R current next = Inr ws" and "e \<in> set ws"
  shows "\<exists>r\<in>set (snd current). order_id r = tr_order_id e
           \<and> tr_location e = str_location (location_of r)"
proof -
  from assms(1) obtain removed where
    coll: "collect (removed_trade ts thr (fst next) R (snd current))
            (removed_orders (snd current) (snd next)) = Inr removed"
    and parts: "ws = changed_trades ts (fst next) R (snd current) (snd next) @ removed"
    by (auto simp: pair_trades_def Let_def split: sum.splits)
  from assms(2) parts consider
    "e \<in> set (changed_trades ts (fst next) R (snd current) (snd next))" | "e \<in> set removed"
    by auto
  then show ?thesis
  proof cases
    case 1
    from changed_trades_member [OF 1] obtain x y where
      "x \<in> set (snd current)" "e = changed_trade (fst next) R (x, y)" by blast
    then show ?thesis by (intro bexI [of _ x]) (simp_all add: changed_trade_def)
  next
    case 2
    from collect_member [OF coll 2] obtain oid us where
      "removed_trade ts thr (fst next) R (snd current) oid = Inr us" "e \<in> set us" by blast
    from removed_trade_origin [OF this] obtain row where
      "row \<in> set (snd current)" "order_id row = oid" "e = removed_event (fst next) R oid row"
      by blast
    then show ?thesis by (intro bexI [of _ row]) (simp_all add: removed_event_def)
  qed
qed

lemma ex_pair_member:
  "((1000, [ex_sell_t0, ex_buy_t0]), (2000, [ex_sell_t1]))
     \<in> set (snap_pairs (filter (\<lambda>r. region_id r = 10) [ex_sell_t0, ex_buy_t0, ex_sell_t1]))"
  unfolding ex_book ex_snap_pairs by simp

lemma ex_run:
  "infer_trades [34] [10] [ex_sell_t0, ex_buy_t0, ex_sell_t1] ex_history = Inr
         [\<lparr>tr_timestamp = 2000, tr_region_id = 10, tr_type_id = 34, tr_actual = True,
           tr_buy = False, tr_order_id = 1, tr_price = 5, tr_volume = 6,
           tr_location = str_int 60003760\<rparr>,
          \<lparr>tr_timestamp = 2000, tr_region_id = 10, tr_type_id = 34, tr_actual = False,
           tr_buy = True, tr_order_id = 2, tr_price = 7, tr_volume = 3,
           tr_location = ''None''\<rparr>]"
proof -
  have pair: "pair_trades [34] (region_threshold_map [34] ex_history 10) 10
            (1000, [ex_sell_t0, ex_buy_t0]) (2000, [ex_sell_t1]) = Inr
         [\<lparr>tr_timestamp = 2000, tr_region_id = 10, tr_type_id = 34, tr_actual = True,
           tr_buy = False, tr_order_id = 1, tr_price = 5, tr_volume = 6,
           tr_location = str_int 60003760\<rparr>,
          \<lparr>tr_timestamp = 2000, tr_region_id = 10, tr_type_id = 34, tr_actual = False,
           tr_buy = True, tr_order_id = 2, tr_price = 7, tr_volume = 3,
           tr_location = ''None''\<rparr>]"
    by (simp add: pair_trades_def removed_orders_def removed_trade_def changed_trades_def
      merge_on_order_id_def changed_trade_def removed_event_def location_of_def
      ex_threshold_10 ex_sell_t0_def ex_buy_t0_def ex_sell_t1_def)
  have "region_trades [34] [ex_sell_t0, ex_buy_t0, ex_sell_t1] ex_history 10 = Inr
         [\<lparr>tr_timestamp = 2000, tr_region_id = 10, tr_type_id = 34, tr_actual = True,
           tr_buy = False, tr_order_id = 1, tr_price = 5, tr_volume = 6,
           tr_location = str_int 60003760\<rparr>,
          \<lparr>tr_timestamp = 2000, tr_region_id = 10, tr_type_id = 34, tr_actual = False,
           tr_buy = True, tr_order_id = 2, tr_price = 7, tr_volume = 3,
           tr_location = ''None''\<rparr>]"
    unfolding region_trades_def Let_def ex_book ex_snap_pairs
    by (simp add: pair)
  then show ?thesis by (simp add: infer_trades_def)
qed

section \<open>Inferred trades\<close>



text \<open>
  Claim C4. Under the same uniqueness of order ids, let \<open>x\<close> in \<open>current\<close> and \<open>y\<close> in
  \<open>next\<close> be rows of one order id with different volumes, the type in the type set, for
  consecutive snapshots \<open>current\<close> and \<open>next\<close> of a region \<open>R\<close> of the region set. Then
  \<open>infer_trades\<close> returns, and exactly one returned trade has the region \<open>R\<close>, the time
  of \<open>next\<close> and that order id: it has \<open>actual = True\<close>, the volume
  \<open>volume x - volume y\<close> whatever its sign, and the price of \<open>y\<close>.
\<close>

theorem changed_order_trade:
  assumes "\<forall>R'\<in>set region_set.
             \<forall>s\<in>set (groupby_index (filter (\<lambda>r. region_id r = R') order_book_full)).
               distinct (map order_id (snd s))"
      and "distinct region_set" and "R \<in> set region_set"
      and "(current, next) \<in> set (snap_pairs (filter (\<lambda>r. region_id r = R) order_book_full))"
      and "x \<in> set (snd current)"
      and "y \<in> set (snd next)"
      and "order_id x = order_id y"
      and "volume x \<noteq> volume y"
      and "type_id x \<in> set type_set"
  shows "\<exists>evs. infer_trades type_set region_set order_book_full market_history_full = Inr evs
     \<and> filter (\<lambda>e. tr_region_id e = R \<and> tr_timestamp e = fst next \<and> tr_order_id e = order_id x) evs =
         [\<lparr>tr_timestamp = fst next, tr_region_id = R, tr_type_id = type_id x,
           tr_actual = True, tr_buy = buy x, tr_order_id = order_id x,
           tr_price = price y, tr_volume = volume x - volume y,
           tr_location = str_location (location_of x)\<rparr>]"
proof -
  from infer_trades_filter [OF assms(1-4), of type_set market_history_full] obtain evs ws where
    run: "infer_trades type_set region_set order_book_full market_history_full = Inr evs"
    and ws: "pair_trades type_set (region_threshold_map type_set market_history_full R) R current next = Inr ws"
    and sel: "filter (\<lambda>e. tr_region_id e = R \<and> tr_timestamp e = fst next) evs = ws"
    by blast
  from assms(1,3) snap_pairs_member [OF assms(4)]
  have d: "distinct (map order_id (snd current))" and d': "distinct (map order_id (snd next))"
    by blast+
  from pair_changed_order [OF d d' assms(5-9), of market_history_full R] ws
  have one: "filter (\<lambda>e. tr_order_id e = order_id x) ws =
         [\<lparr>tr_timestamp = fst next, tr_region_id = R, tr_type_id = type_id x,
           tr_actual = True, tr_buy = buy x, tr_order_id = order_id x,
           tr_price = price y, tr_volume = volume x - volume y,
           tr_location = str_location (location_of x)\<rparr>]"
    by auto
  have "filter (\<lambda>e. tr_region_id e = R \<and> tr_timestamp e = fst next \<and> tr_order_id e = order_id x) evs
      = filter (\<lambda>e. tr_order_id e = order_id x)
          (filter (\<lambda>e. tr_region_id e = R \<and> tr_timestamp e = fst next) evs)"
    by (simp add: conj_commute conj_left_commute)
  with sel one run show ?thesis by simp
qed

theorem changed_order_trade_witness:
  "\<exists>evs. infer_trades [34] [10] [ex_sell_t0, ex_buy_t0, ex_sell_t1] ex_history = Inr evs
     \<and> filter (\<lambda>e. tr_region_id e = 10 \<and> tr_timestamp e = 2000 \<and> tr_order_id e = 1) evs =
         [\<lparr>tr_timestamp = 2000, tr_region_id = 10, tr_type_id = 34, tr_actual = True,
           tr_buy = False, tr_order_id = 1, tr_price = 5, tr_volume = 6,
           tr_location = ''60003760''\<rparr>]"
proof -
  have regions: "distinct [10 :: int]" "10 \<in> set [10 :: int]" by simp_all
  have x: "ex_sell_t0 \<in> set (snd (1000 :: int, [ex_sell_t0, ex_buy_t0]))" by simp
  have y: "ex_sell_t1 \<in> set (snd (2000 :: int, [ex_sell_t1]))" by simp
  have i: "order_id ex_sell_t0 = order_id ex_sell_t1" by (simp add: ex_sell_t0_def ex_sell_t1_def)
  have v: "volume ex_sell_t0 \<noteq> volume ex_sell_t1" by (simp add: ex_sell_t0_def ex_sell_t1_def)
  have t: "type_id ex_sell_t0 \<in> set [34]" by (simp add: ex_sell_t0_def)
  have s: "str_int 60003760 = ''60003760''"
    by (simp add: str_int_def str_nat.simps digit_char_def)
  from changed_order_trade [OF ex_unique regions ex_pair_member x y i v t, of ex_history]
  show ?thesis
    by (simp add: ex_sell_t0_def ex_sell_t1_def location_of_def s)
qed

text \<open>
  Claim C6. Every trade that \<open>infer_trades\<close> returns, of either kind, stems from a row
  \<open>r\<close> with its order id in the earlier snapshot \<open>current\<close> of a pair of consecutive
  snapshots of its region, \<open>next\<close> being the snapshot of its timestamp; its location is
  the string \<open>None\<close> if and only if \<open>r\<close> is a buy order whose range is not \<open>station\<close>,
  and otherwise it is \<open>str\<close> of the location id of \<open>r\<close>.
\<close>

theorem trade_location:
  assumes "infer_trades type_set region_set order_book_full market_history_full = Inr evs"
      and "e \<in> set evs"
  shows "\<exists>current next.
       (current, next) \<in> set (snap_pairs (filter (\<lambda>r. region_id r = tr_region_id e) order_book_full))
     \<and> tr_timestamp e = fst next
     \<and> (\<exists>r\<in>set (snd current). order_id r = tr_order_id e
           \<and> (tr_location e = ''None'') = (buy r \<and> order_range r \<noteq> ''station'')
           \<and> (tr_location e \<noteq> ''None'' \<longrightarrow> tr_location e = str_int (location_id r)))"
proof -
  from collect_member [OF assms(1) [unfolded infer_trades_def] assms(2)] obtain R' zs where
    "region_trades type_set order_book_full market_history_full R' = Inr zs" "e \<in> set zs"
    by blast
  from collect_member [OF this(1) [unfolded region_trades_def Let_def] this(2)]
  obtain cur nxt ws where
    pair: "(cur, nxt) \<in> set (snap_pairs (filter (\<lambda>r. region_id r = R') order_book_full))"
    and ws: "pair_trades type_set (region_threshold_map type_set market_history_full R') R' cur nxt = Inr ws"
    and e: "e \<in> set ws"
    by auto
  from pair_trades_timestamp [OF ws e] have t: "tr_timestamp e = fst nxt" and R': "tr_region_id e = R'"
    by simp_all
  from pair_trades_origin [OF ws e] obtain r where
    r: "r \<in> set (snd cur)" "order_id r = tr_order_id e"
      "tr_location e = str_location (location_of r)" by blast
  have "(tr_location e = ''None'') = (buy r \<and> order_range r \<noteq> ''station'')"
    and "tr_location e \<noteq> ''None'' \<longrightarrow> tr_location e = str_int (location_id r)"
    using r(3) str_location_None [of r] str_location_id [of r] by auto
  with r(1,2) have "\<exists>r\<in>set (snd cur). order_id r = tr_order_id e
           \<and> (tr_location e = ''None'') = (buy r \<and> order_range r \<noteq> ''station'')
           \<and> (tr_location e \<noteq> ''None'' \<longrightarrow> tr_location e = str_int (location_id r))"
    by blast
  with pair t R' show ?thesis by blast
qed


theorem trade_location_witness:
  "(\<exists>current next.
       (current, next) \<in> set (snap_pairs (filter (\<lambda>r. region_id r = 10) [ex_sell_t0, ex_buy_t0, ex_sell_t1]))
     \<and> 2000 = fst next
     \<and> (\<exists>r\<in>set (snd current). order_id r = 2 \<and> buy r \<and> order_range r \<noteq> ''station''))
   \<and> (\<exists>current next.
       (current, next) \<in> set (snap_pairs (filter (\<lambda>r. region_id r = 10) [ex_sell_t0, ex_buy_t0, ex_sell_t1]))
     \<and> 2000 = fst next
     \<and> (\<exists>r\<in>set (snd current). order_id r = 1 \<and> \<not> (buy r \<and> order_range r \<noteq> ''station'')
           \<and> str_int 60003760 = str_int (location_id r)))"
proof -
  let ?sold = "\<lparr>tr_timestamp = 2000, tr_region_id = 10, tr_type_id = 34, tr_actual = True,
           tr_buy = False, tr_order_id = 1, tr_price = 5, tr_volume = 6,
           tr_location = str_int 60003760\<rparr>"
  let ?bought = "\<lparr>tr_timestamp = 2000, tr_region_id = 10, tr_type_id = 34, tr_actual = False,
           tr_buy = True, tr_order_id = 2, tr_price = 7, tr_volume = 3,
           tr_location = ''None''\<rparr>"
  have "?bought \<in> set [?sold, ?bought]" by simp
  from trade_location [OF ex_run this] have removed: "\<exists>current next.
       (current, next) \<in> set (snap_pairs (filter (\<lambda>r. region_id r = 10) [ex_sell_t0, ex_buy_t0, ex_sell_t1]))
     \<and> 2000 = fst next
     \<and> (\<exists>r\<in>set (snd current). order_id r = 2 \<and> buy r \<and> order_range r \<noteq> ''station'')"
    by simp
  have "?sold \<in> set [?sold, ?bought]" by simp
  from trade_location [OF ex_run this] have changed: "\<exists>current next.
       (current, next) \<in> set (snap_pairs (filter (\<lambda>r. region_id r = 10) [ex_sell_t0, ex_buy_t0, ex_sell_t1]))
     \<and> 2000 = fst next
     \<and> (\<exists>r\<in>set (snd current). order_id r = 1 \<and> \<not> (buy r \<and> order_range r \<noteq> ''station'')
           \<and> str_int 60003760 = str_int (location_id r))"
    by (simp add: str_int_not_None)
  from removed changed show ?thesis by (rule conjI)
qed

text \<open>
  Claim C9. When the history of type \<open>T\<close> in region \<open>R\<close> is non-empty with fewer than 5
  rows, the threshold computed for \<open>T\<close> in \<open>R\<close> is NaN, and no run of \<open>infer_trades\<close>
  returns a trade of type \<open>T\<close> and region \<open>R\<close> with \<open>actual = False\<close>.
\<close>

theorem short_history_no_removed_trade:
  assumes "by_type = filter (\<lambda>h. h_type_id h = T) (filter (\<lambda>h. h_region_id h = R) market_history_full)"
      and "by_type \<noteq> []"
      and "length by_type < 5"
  shows "type_threshold (filter (\<lambda>h. h_region_id h = R) market_history_full) T = NaN
     \<and> region_threshold_map type_set market_history_full R T
           = (if T \<in> set type_set then Some NaN else None)
     \<and> (\<forall>evs. infer_trades type_set region_set order_book_full market_history_full = Inr evs \<longrightarrow>
           (\<forall>e\<in>set evs. tr_region_id e = R \<and> tr_type_id e = T \<longrightarrow> tr_actual e))"
proof -
  have nan: "type_threshold (filter (\<lambda>h. h_region_id h = R) market_history_full) T = NaN"
    using assms by (simp add: type_threshold_def series_threshold_short)
  then have map: "region_threshold_map type_set market_history_full R T
      = (if T \<in> set type_set then Some NaN else None)"
    by (simp add: region_threshold_map_lookup)
  have "tr_actual e"
    if run: "infer_trades type_set region_set order_book_full market_history_full = Inr evs"
      and e: "e \<in> set evs" "tr_region_id e = R" "tr_type_id e = T" for evs e
  proof -
    from collect_member [OF run [unfolded infer_trades_def] e(1)] obtain R' zs where
      "region_trades type_set order_book_full market_history_full R' = Inr zs" "e \<in> set zs"
      by blast
    from region_trades_member [OF this] have "tr_region_id e = R'" and
      alt: "tr_actual e \<or> (\<exists>(row :: order_row) v. region_threshold_map type_set market_history_full R' (type_id row) = Some v
                         \<and> le_fl (volume row) v \<and> tr_type_id e = type_id row)"
      by blast+
    with e(2) have R': "R' = R" by simp
    show ?thesis
    proof (rule ccontr)
      assume "\<not> tr_actual e"
      with alt obtain row :: order_row and v where
        "region_threshold_map type_set market_history_full R' (type_id row) = Some v"
        "le_fl (volume row) v" "tr_type_id e = type_id row"
        by blast
      with R' e(3) have "region_threshold_map type_set market_history_full R T = Some v"
        and "le_fl (volume row) v" by simp_all
      with map show False by (auto split: if_splits)
    qed
  qed
  with nan map show ?thesis by blast
qed

theorem short_history_no_removed_trade_witness:
  "type_threshold (filter (\<lambda>h. h_region_id h = 10) ex_short_history) 34 = NaN
   \<and> region_threshold_map [34] ex_short_history 10 34 = Some NaN
   \<and> (\<exists>evs. infer_trades [34] [10] [ex_sell_t0, ex_buy_t0, ex_sell_t1] ex_short_history = Inr evs
         \<and> evs \<noteq> [] \<and> (\<forall>e\<in>set evs. tr_region_id e = 10 \<and> tr_type_id e = 34 \<longrightarrow> tr_actual e))"
proof -
  have ne: "filter (\<lambda>h. h_type_id h = 34) (filter (\<lambda>h. h_region_id h = 10) ex_short_history) \<noteq> []"
    by (simp add: ex_short_history_def)
  have len: "length (filter (\<lambda>h. h_type_id h = 34) (filter (\<lambda>h. h_region_id h = 10) ex_short_history)) < 5"
    by (simp add: ex_short_history_def)
  from short_history_no_removed_trade [OF refl ne len, of "[34]" "[10]" "[ex_sell_t0, ex_buy_t0, ex_sell_t1]"]
  show ?thesis
    by (simp add: ex_short_run)
qed

section \<open>The written document\<close>

lemma foldl_append_concat: "foldl (\<lambda>out x. out @ f x) a xs = a @ concat (map f xs)"
  by (induction xs arbitrary: a) simp_all

lemma write_region_append:
  "write_region trades fobj r =
     fobj @ Line (str_int r) # Line (str_nat (length (region_trades_of trades r)))
            # map trade_line (region_trades_of trades r)"
  by (simp add: write_region_def Let_def)

lemma write_type_append:
  "write_type trade_list fobj t =
     fobj @ Line (str_int t) # Line (str_nat (length (region_list (type_trades trade_list t))))
       # concat (map (\<lambda>r. Line (str_int r)
                  # Line (str_nat (length (region_trades_of (type_trades trade_list t) r)))
                  # map trade_line (region_trades_of (type_trades trade_list t) r))
           (region_list (type_trades trade_list t)))"
proof -
  have "write_region trades = (\<lambda>out r. out @ Line (str_int r)
      # Line (str_nat (length (region_trades_of trades r)))
      # map trade_line (region_trades_of trades r))" for trades
    by (intro ext) (rule write_region_append)
  then show ?thesis
    by (simp add: write_type_def Let_def foldl_append_concat)
qed

lemma write_trades_append:
  "write_trades fobj trade_list =
     fobj @ concat (map (\<lambda>t. Line (str_int t)
         # Line (str_nat (length (region_list (type_trades trade_list t))))
         # concat (map (\<lambda>r. Line (str_int r)
                  # Line (str_nat (length (region_trades_of (type_trades trade_list t) r)))
                  # map trade_line (region_trades_of (type_trades trade_list t) r))
             (region_list (type_trades trade_list t))))
       (type_list trade_list))"
proof -
  have "write_type trade_list = (\<lambda>out t. out @ Line (str_int t)
         # Line (str_nat (length (region_list (type_trades trade_list t))))
         # concat (map (\<lambda>r. Line (str_int r)
                  # Line (str_nat (length (region_trades_of (type_trades trade_list t) r)))
                  # map trade_line (region_trades_of (type_trades trade_list t) r))
             (region_list (type_trades trade_list t))))"
    by (intro ext) (rule write_type_append)
  then show ?thesis
    by (simp add: write_trades_def foldl_append_concat)
qed

lemma ex_str: "str_int 3 = ''3''" "str_int 5 = ''5''" "str_int 10 = ''10''" "str_int 20 = ''20''"
    "str_nat (Suc 0) = ''1''" "str_nat (Suc (Suc 0)) = ''2''"
  by (simp_all add: str_int_def str_nat.simps digit_char_def)

text \<open>
  Claim C7. \<open>write_trades\<close> leaves the lines written before in place and appends, for
  the types of the trades handed to it in ascending order without repetition: the type and
  its number of regions, then for the regions of the type's trades in ascending order
  without repetition: the region, its number of trades and its trades. The trades of a
  type \<open>T\<close> and a region \<open>R\<close> are those of the list handed to it, in ascending order of
  their timestamps. Only the trades of this call are sorted.
\<close>

theorem write_trades_sorted:
  "write_trades fobj trade_list =
     fobj @ concat (map (\<lambda>t. Line (str_int t)
         # Line (str_nat (length (region_list (type_trades trade_list t))))
         # concat (map (\<lambda>r. Line (str_int r)
                  # Line (str_nat (length (region_trades_of (type_trades trade_list t) r)))
                  # map trade_line (region_trades_of (type_trades trade_list t) r))
             (region_list (type_trades trade_list t))))
       (type_list trade_list))
   \<and> sorted (type_list trade_list) \<and> distinct (type_list trade_list)
   \<and> set (type_list trade_list) = tr_type_id ` set trade_list
   \<and> sorted (region_list (type_trades trade_list T))
   \<and> distinct (region_list (type_trades trade_list T))
   \<and> set (region_list (type_trades trade_list T))
        = tr_region_id ` {x \<in> set trade_list. tr_type_id x = T}
   \<and> sorted (map tr_timestamp (region_trades_of (type_trades trade_list T) R))
   \<and> mset (region_trades_of (type_trades trade_list T) R)
        = mset (filter (\<lambda>x. tr_type_id x = T \<and> tr_region_id x = R) trade_list)"
proof -
  have "sorted (map tr_timestamp (region_trades_of (type_trades trade_list T) R))"
    unfolding region_trades_of_def type_trades_def
    by (intro sorted_filter sorted_sort_key)
  moreover have "mset (region_trades_of (type_trades trade_list T) R)
        = mset (filter (\<lambda>x. tr_type_id x = T \<and> tr_region_id x = R) trade_list)"
    by (simp add: region_trades_of_def type_trades_def filter_filter_mset conj_commute)
  moreover have "set (region_list (type_trades trade_list T))
        = tr_region_id ` {x \<in> set trade_list. tr_type_id x = T}"
    by (auto simp: region_list_def type_trades_def)
  ultimately show ?thesis
    using write_trades_append [of fobj trade_list]
    by (simp add: type_list_def region_list_def)
qed


theorem write_trades_sorted_witness:
  "write_trades [] ex_trades =
     [Line ''3'', Line ''2'',
        Line ''10'', Line ''1'', trade_line (ex_trade 3 10 2000 4),
        Line ''20'', Line ''1'', trade_line (ex_trade 3 20 3000 2),
      Line ''5'', Line ''2'',
        Line ''10'', Line ''1'', trade_line (ex_trade 5 10 3000 3),
        Line ''20'', Line ''2'', trade_line (ex_trade 5 20 1000 5),
          trade_line (ex_trade 5 20 2000 1)]"
proof -
  have types: "type_list ex_trades = [3, 5]"
    by (simp add: type_list_def ex_trades_def ex_trade_def)
  have t3: "type_trades ex_trades 3 = [ex_trade 3 10 2000 4, ex_trade 3 20 3000 2]"
    by (simp add: type_trades_def ex_trades_def ex_trade_def)
  have t5: "type_trades ex_trades 5 = [ex_trade 5 20 1000 5, ex_trade 5 20 2000 1, ex_trade 5 10 3000 3]"
    by (simp add: type_trades_def ex_trades_def ex_trade_def)
  have r3: "region_list [ex_trade 3 10 2000 4, ex_trade 3 20 3000 2] = [10, 20]"
    by (simp add: region_list_def ex_trade_def)
  have r5: "region_list [ex_trade 5 20 1000 5, ex_trade 5 20 2000 1, ex_trade 5 10 3000 3] = [10, 20]"
    by (simp add: region_list_def ex_trade_def)
  have rt: "region_trades_of [ex_trade 3 10 2000 4, ex_trade 3 20 3000 2] 10 = [ex_trade 3 10 2000 4]"
    "region_trades_of [ex_trade 3 10 2000 4, ex_trade 3 20 3000 2] 20 = [ex_trade 3 20 3000 2]"
    "region_trades_of [ex_trade 5 20 1000 5, ex_trade 5 20 2000 1, ex_trade 5 10 3000 3] 10
       = [ex_trade 5 10 3000 3]"
    "region_trades_of [ex_trade 5 20 1000 5, ex_trade 5 20 2000 1, ex_trade 5 10 3000 3] 20
       = [ex_trade 5 20 1000 5, ex_trade 5 20 2000 1]"
    by (simp_all add: region_trades_of_def ex_trade_def)
  from write_trades_sorted [of "[]" ex_trades 3 10]
  have "write_trades [] ex_trades =
     concat (map (\<lambda>t. Line (str_int t)
         # Line (str_nat (length (region_list (type_trades ex_trades t))))
         # concat (map (\<lambda>r. Line (str_int r)
                  # Line (str_nat (length (region_trades_of (type_trades ex_trades t) r)))
                  # map trade_line (region_trades_of (type_trades ex_trades t) r))
             (region_list (type_trades ex_trades t))))
       (type_list ex_trades))"
    by simp
  then show ?thesis
    unfolding types by (simp add: t3 t5 r3 r5 rt ex_str)
qed

section \<open>Collecting and flushing batches\<close>

lemma find_trades_buffer:
  "type_count st < n \<Longrightarrow> df \<noteq> [] \<Longrightarrow>
     find_trades process n st (tid, df) =
       Inr (st\<lparr>next_types := next_types st @ [(tid, df)], type_count := type_count st + 1\<rparr>)"
  by (simp add: find_trades_def)

lemma find_trades_empty:
  "type_count st < n \<Longrightarrow> find_trades process n st (tid, []) = Inr st"
  by (simp add: find_trades_def)

lemma find_trades_flush:
  "\<not> type_count st < n \<Longrightarrow>
     find_trades process n st offer =
       (case process (fout st) (next_types st) of
          Inl e \<Rightarrow> Inl e
        | Inr out \<Rightarrow> Inr \<lparr>type_count = 0, next_types = [], fout = out\<rparr>)"
  by (simp add: find_trades_def split: prod.splits)

lemma find_trades_record_batch:
  "\<exists>st' kept. find_trades record_batch n st offer = Inr st'
     \<and> concat (fout st') @ next_types st' = concat (fout st) @ next_types st @ kept
     \<and> subseq kept (filter (\<lambda>(t, df). df \<noteq> []) [offer])
     \<and> (type_count st = length (next_types st) \<and> type_count st \<le> n
            \<and> (\<forall>b\<in>set (fout st). length b \<le> n)
          \<longrightarrow> type_count st' = length (next_types st') \<and> type_count st' \<le> n
            \<and> (\<forall>b\<in>set (fout st'). length b \<le> n))"
proof (cases offer)
  case (Pair tid df)
  show ?thesis
  proof (cases "type_count st < n")
    case True
    show ?thesis
    proof (cases "df = []")
      case True
      with \<open>type_count st < n\<close> Pair show ?thesis
        by (simp add: find_trades_empty)
    next
      case False
      with \<open>type_count st < n\<close> Pair show ?thesis
        by (simp add: find_trades_buffer)
    qed
  next
    case False
    then show ?thesis
      by (simp add: find_trades_flush record_batch_def)
  qed
qed

lemma offer_all_record_batch:
  "\<exists>st' kept. offer_all record_batch n st offers = Inr st'
     \<and> concat (fout st') @ next_types st' = concat (fout st) @ next_types st @ kept
     \<and> subseq kept (filter (\<lambda>(t, df). df \<noteq> []) offers)
     \<and> (type_count st = length (next_types st) \<and> type_count st \<le> n
            \<and> (\<forall>b\<in>set (fout st). length b \<le> n)
          \<longrightarrow> type_count st' = length (next_types st') \<and> type_count st' \<le> n
            \<and> (\<forall>b\<in>set (fout st'). length b \<le> n))"
proof (induction offers arbitrary: st)
  case Nil
  show ?case by simp
next
  case (Cons offer offers)
  from find_trades_record_batch [of n st offer] obtain st1 kept1 where
    step: "find_trades record_batch n st offer = Inr st1"
    and c1: "concat (fout st1) @ next_types st1 = concat (fout st) @ next_types st @ kept1"
    and s1: "subseq kept1 (filter (\<lambda>(t, df). df \<noteq> []) [offer])"
    and i1: "type_count st = length (next_types st) \<and> type_count st \<le> n
            \<and> (\<forall>b\<in>set (fout st). length b \<le> n)
          \<longrightarrow> type_count st1 = length (next_types st1) \<and> type_count st1 \<le> n
            \<and> (\<forall>b\<in>set (fout st1). length b \<le> n)"
    by blast
  from Cons.IH [of st1] obtain st2 kept2 where
    rest: "offer_all record_batch n st1 offers = Inr st2"
    and c2: "concat (fout st2) @ next_types st2 = concat (fout st1) @ next_types st1 @ kept2"
    and s2: "subseq kept2 (filter (\<lambda>(t, df). df \<noteq> []) offers)"
    and i2: "type_count st1 = length (next_types st1) \<and> type_count st1 \<le> n
            \<and> (\<forall>b\<in>set (fout st1). length b \<le> n)
          \<longrightarrow> type_count st2 = length (next_types st2) \<and> type_count st2 \<le> n
            \<and> (\<forall>b\<in>set (fout st2). length b \<le> n)"
    by blast
  have run: "offer_all record_batch n st (offer # offers) = Inr st2"
    using step rest by simp
  have "concat (fout st2) @ next_types st2 = concat (fout st) @ next_types st @ (kept1 @ kept2)"
    using c1 c2 by (metis append.assoc)
  moreover have "subseq (kept1 @ kept2) (filter (\<lambda>(t, df). df \<noteq> []) (offer # offers))"
  proof -
    have "filter (\<lambda>(t, df). df \<noteq> []) (offer # offers)
        = filter (\<lambda>(t, df). df \<noteq> []) [offer] @ filter (\<lambda>(t, df). df \<noteq> []) offers"
      by simp
    then show ?thesis using s1 s2 by (simp only: list_emb_append_mono)
  qed
  ultimately show ?case using run i1 i2 by blast
qed


lemma run_batches_append:
  "run_batches process out (bs @ cs) =
     (case run_batches process out bs of Inl e \<Rightarrow> Inl e | Inr out' \<Rightarrow> run_batches process out' cs)"
  by (induction bs arbitrary: out) (auto split: sum.splits)

lemma offer_all_run_batches:
  "\<exists>c' b' bl.
     offer_all record_batch n \<lparr>type_count = c, next_types = b, fout = batches\<rparr> offers
       = Inr \<lparr>type_count = c', next_types = b', fout = batches @ bl\<rparr>
     \<and> (\<forall>process (out :: 'o).
          offer_all process n \<lparr>type_count = c, next_types = b, fout = out\<rparr> offers
            = (case run_batches process out bl of
                 Inl e \<Rightarrow> Inl e
               | Inr out' \<Rightarrow> Inr \<lparr>type_count = c', next_types = b', fout = out'\<rparr>))"
proof (induction offers arbitrary: c b batches)
  case Nil
  have "offer_all record_batch n \<lparr>type_count = c, next_types = b, fout = batches\<rparr> []
       = Inr \<lparr>type_count = c, next_types = b, fout = batches @ []\<rparr>" by simp
  moreover have "\<forall>process (out :: 'o).
          offer_all process n \<lparr>type_count = c, next_types = b, fout = out\<rparr> []
            = (case run_batches process out [] of
                 Inl e \<Rightarrow> Inl e
               | Inr out' \<Rightarrow> Inr \<lparr>type_count = c, next_types = b, fout = out'\<rparr>)" by simp
  ultimately show ?case by blast
next
  case (Cons offer offers)
  obtain tid df where offer: "offer = (tid, df)" by (cases offer)
  show ?case
  proof (cases "c < n")
    case True
    show ?thesis
    proof (cases "df = []")
      case True
      from Cons.IH [of c b batches] \<open>c < n\<close> True offer show ?thesis
        by (simp add: find_trades_empty)
    next
      case False
      from Cons.IH [of "Suc c" "b @ [(tid, df)]" batches] \<open>c < n\<close> False offer show ?thesis
        by (simp add: find_trades_buffer)
    qed
  next
    case False
    have full: "\<not> type_count \<lparr>type_count = c, next_types = b, fout = out\<rparr> < n" for out :: 'x
      using False by simp
    from Cons.IH [of 0 "[]" "batches @ [b]"] obtain c' b' bl where
      r: "offer_all record_batch n \<lparr>type_count = 0, next_types = [], fout = batches @ [b]\<rparr> offers
            = Inr \<lparr>type_count = c', next_types = b', fout = (batches @ [b]) @ bl\<rparr>"
      and p: "\<And>process (out :: 'o). offer_all process n \<lparr>type_count = 0, next_types = [], fout = out\<rparr> offers
            = (case run_batches process out bl of
                 Inl e \<Rightarrow> Inl e
               | Inr out' \<Rightarrow> Inr \<lparr>type_count = c', next_types = b', fout = out'\<rparr>)"
      by blast
    have "offer_all record_batch n \<lparr>type_count = c, next_types = b, fout = batches\<rparr> (offer # offers)
        = Inr \<lparr>type_count = c', next_types = b', fout = batches @ (b # bl)\<rparr>"
      using r by (simp add: find_trades_flush [OF full] record_batch_def)
    moreover have "\<forall>process (out :: 'o).
        offer_all process n \<lparr>type_count = c, next_types = b, fout = out\<rparr> (offer # offers)
          = (case run_batches process out (b # bl) of
               Inl e \<Rightarrow> Inl e
             | Inr out' \<Rightarrow> Inr \<lparr>type_count = c', next_types = b', fout = out'\<rparr>)"
      by (simp add: find_trades_flush [OF full] p split: sum.splits)
    ultimately show ?thesis by blast
  qed
qed


lemma offer_all_below:
  "type_count st + length (filter (\<lambda>(t, df). df \<noteq> []) offers) < n \<Longrightarrow>
     offer_all process n st offers =
       Inr (st\<lparr>next_types := next_types st @ filter (\<lambda>(t, df). df \<noteq> []) offers,
               type_count := type_count st + length (filter (\<lambda>(t, df). df \<noteq> []) offers)\<rparr>)"
proof (induction offers arbitrary: st)
  case Nil
  show ?case by simp
next
  case (Cons offer offers)
  obtain tid df where offer: "offer = (tid, df)" by (cases offer)
  from Cons.prems have below: "type_count st < n" by simp
  show ?case
  proof (cases "df = []")
    case True
    with Cons.prems offer have "type_count st + length (filter (\<lambda>(t, df). df \<noteq> []) offers) < n"
      by simp
    from Cons.IH [OF this] below True offer show ?thesis
      by (simp add: find_trades_empty)
  next
    case False
    let ?st = "st\<lparr>next_types := next_types st @ [(tid, df)], type_count := type_count st + 1\<rparr>"
    from Cons.prems offer False
    have "type_count ?st + length (filter (\<lambda>(t, df). df \<noteq> []) offers) < n"
      by simp
    from Cons.IH [OF this] below False offer show ?thesis
      by (simp add: find_trades_buffer)
  qed
qed

lemma extract_trades_below:
  assumes "length (filter (\<lambda>(t, df). df \<noteq> []) archive) < n"
  shows "extract_trades process n archive out = process out (filter (\<lambda>(t, df). df \<noteq> []) archive)"
proof -
  have "type_count \<lparr>type_count = 0, next_types = [], fout = out\<rparr>
      + length (filter (\<lambda>(t, df). df \<noteq> []) archive) < n"
    using assms by simp
  from offer_all_below [OF this, of process] assms show ?thesis
    by (simp add: extract_trades_def end_read_def)
qed

lemma sum_case_id: "(case x of Inl e \<Rightarrow> Inl e | Inr y \<Rightarrow> Inr y) = x"
  by (cases x) simp_all

lemma extract_trades_record_batch:
  "\<exists>bl. extract_trades record_batch n archive [] = Inr bl
     \<and> subseq (concat bl) (filter (\<lambda>(t, df). df \<noteq> []) archive)
     \<and> (\<forall>b\<in>set bl. length b \<le> n)
     \<and> (\<forall>process (out :: 'o). extract_trades process n archive out = run_batches process out bl)"
proof -
  from offer_all_run_batches [of n 0 "[]" "[]" archive] obtain c' b' bl where
    r: "offer_all record_batch n \<lparr>type_count = 0, next_types = [], fout = []\<rparr> archive
          = Inr \<lparr>type_count = c', next_types = b', fout = bl\<rparr>"
    and p: "\<And>process (out :: 'o).
        offer_all process n \<lparr>type_count = 0, next_types = [], fout = out\<rparr> archive
          = (case run_batches process out bl of
               Inl e \<Rightarrow> Inl e
             | Inr out' \<Rightarrow> Inr \<lparr>type_count = c', next_types = b', fout = out'\<rparr>)"
    by auto
  from offer_all_record_batch [of n "\<lparr>type_count = 0, next_types = [], fout = []\<rparr>" archive] r
  obtain kept where kept: "concat bl @ b' = kept"
    and sub: "subseq kept (filter (\<lambda>(t, df). df \<noteq> []) archive)"
    and inv: "c' = length b'" "c' \<le> n" "\<forall>b\<in>set bl. length b \<le> n"
    by auto
  show ?thesis
  proof (cases "c' < n")
    case True
    have "extract_trades record_batch n archive [] = Inr (bl @ [b'])"
      using r True by (simp add: extract_trades_def end_read_def record_batch_def)
    moreover have "subseq (concat (bl @ [b'])) (filter (\<lambda>(t, df). df \<noteq> []) archive)"
      using kept sub by simp
    moreover have "\<forall>b\<in>set (bl @ [b']). length b \<le> n"
      using inv by auto
    moreover have "\<forall>process (out :: 'o).
        extract_trades process n archive out = run_batches process out (bl @ [b'])"
      using True
      by (auto simp: extract_trades_def p end_read_def run_batches_append sum_case_id
          split: sum.splits)
    ultimately show ?thesis by blast
  next
    case False
    have "extract_trades record_batch n archive [] = Inr bl"
      using r False by (simp add: extract_trades_def end_read_def)
    moreover have "subseq (concat bl) (filter (\<lambda>(t, df). df \<noteq> []) archive)"
    proof -
      have "subseq (concat bl) (concat bl @ b')"
        using list_emb_append_mono [of "(=)" "concat bl" "concat bl" "[]" b'] by simp
      with kept sub show ?thesis using subseq_order.trans by blast
    qed
    moreover have "\<forall>process (out :: 'o).
        extract_trades process n archive out = run_batches process out bl"
      using False
      by (auto simp: extract_trades_def p end_read_def split: sum.splits)
    ultimately show ?thesis using inv(3) by blast
  qed
qed

text \<open>
  Claim C1, as stated: every offered pair is buffered and processed in exactly one flushed
  batch. With a batch size of 2 and five offers, the second with an empty order book, the
  batches handed to the processing are the first and third pair, then the fifth: the
  second pair is not buffered, and the fourth, offered when the buffer was full, is in no
  batch. With two offers the buffer is full when the archive ends, and nothing is flushed.
\<close>

theorem dropped_offers_counterexample:
  "extract_trades record_batch 2
       [(1, [ex_sell_t0]), (2, []), (3, [ex_sell_t0]), (4, [ex_sell_t0]), (5, [ex_sell_t0])] []
     = Inr [[(1, [ex_sell_t0]), (3, [ex_sell_t0])], [(5, [ex_sell_t0])]]
   \<and> (2, []) \<notin> set (concat [[(1, [ex_sell_t0]), (3, [ex_sell_t0])], [(5 :: int, [ex_sell_t0])]])
   \<and> (4, [ex_sell_t0]) \<notin> set (concat [[(1, [ex_sell_t0]), (3, [ex_sell_t0])], [(5 :: int, [ex_sell_t0])]])
   \<and> extract_trades record_batch 2 [(1, [ex_sell_t0]), (3, [ex_sell_t0])] [] = Inr []"
  by (simp add: extract_trades_def find_trades_def end_read_def record_batch_def)

text \<open>
  Claim C1, amended. A pair with a non-empty order book offered while the counter is below
  the batch size is appended to the buffer and counted. An offer made when the counter has
  reached the batch size has the buffered pairs processed as one batch, and none of them
  stays in the buffer. \<open>end_read\<close> has a non-empty buffer processed as the final batch when
  the counter is below the batch size. For every archive, the batches handed to the
  processing are at most as long as the batch size and, concatenated in order, form a
  subsequence of the offered pairs with non-empty order books, so that no pair is
  processed twice and no pair with an empty order book is processed; the run is the
  processing of these batches in order. When the archive has at least one and fewer than
  batch-size pairs with non-empty order books, they are all processed, in the single
  final batch.
\<close>

theorem collector_batches:
  "(type_count st < n \<and> df \<noteq> [] \<longrightarrow>
      find_trades process n st (tid, df) =
        Inr (st\<lparr>next_types := next_types st @ [(tid, df)], type_count := type_count st + 1\<rparr>))
   \<and> (\<not> type_count st < n \<and> process (fout st) (next_types st) = Inr flushed \<longrightarrow>
        (\<exists>st'. find_trades process n st offer = Inr st' \<and> fout st' = flushed
            \<and> subseq (next_types st') [offer]))
   \<and> (type_count st < n \<and> next_types st \<noteq> [] \<longrightarrow>
        end_read process n st = process (fout st) (next_types st))
   \<and> (\<exists>bl. extract_trades record_batch n archive [] = Inr bl
         \<and> subseq (concat bl) (filter (\<lambda>(t, df). df \<noteq> []) archive)
         \<and> (\<forall>b\<in>set bl. length b \<le> n)
         \<and> extract_trades process n archive (out :: 'o) = run_batches process out bl)
   \<and> (filter (\<lambda>(t, df). df \<noteq> []) archive \<noteq> []
        \<and> length (filter (\<lambda>(t, df). df \<noteq> []) archive) < n \<longrightarrow>
        extract_trades process n archive out
          = process out (filter (\<lambda>(t, df). df \<noteq> []) archive))"
proof -
  have flush: "\<exists>st'. find_trades process n st offer = Inr st' \<and> fout st' = flushed
            \<and> subseq (next_types st') [offer]"
    if "\<not> type_count st < n" and "process (fout st) (next_types st) = Inr flushed"
    using that by (simp add: find_trades_flush)
  have final: "end_read process n st = process (fout st) (next_types st)" if "type_count st < n"
    using that by (simp add: end_read_def)
  from extract_trades_record_batch [of n archive] obtain bl where
    all: "extract_trades record_batch n archive [] = Inr bl
     \<and> subseq (concat bl) (filter (\<lambda>(t, df). df \<noteq> []) archive)
     \<and> (\<forall>b\<in>set bl. length b \<le> n)
     \<and> (\<forall>process (out :: 'o). extract_trades process n archive out = run_batches process out bl)"
    by (rule exE)
  then have "extract_trades record_batch n archive [] = Inr bl
         \<and> subseq (concat bl) (filter (\<lambda>(t, df). df \<noteq> []) archive)
         \<and> (\<forall>b\<in>set bl. length b \<le> n)
         \<and> extract_trades process n archive out = run_batches process out bl"
    by simp
  then have run: "\<exists>bl. extract_trades record_batch n archive [] = Inr bl
         \<and> subseq (concat bl) (filter (\<lambda>(t, df). df \<noteq> []) archive)
         \<and> (\<forall>b\<in>set bl. length b \<le> n)
         \<and> extract_trades process n archive out = run_batches process out bl"
    by (rule exI)
  show ?thesis
    using flush final run extract_trades_below [of archive n process out]
    by (simp add: find_trades_buffer)
qed

theorem collector_batches_witness:
  "find_trades record_batch 3 \<lparr>type_count = 0, next_types = [], fout = []\<rparr> (1, [ex_sell_t0])
     = Inr \<lparr>type_count = 1, next_types = [(1, [ex_sell_t0])], fout = []\<rparr>
   \<and> (\<exists>st'. find_trades record_batch 1
               \<lparr>type_count = 1, next_types = [(1, [ex_sell_t0])], fout = []\<rparr> (2, [ex_buy_t0])
             = Inr st' \<and> fout st' = [[(1, [ex_sell_t0])]])
   \<and> end_read record_batch 3 \<lparr>type_count = 1, next_types = [(1, [ex_sell_t0])], fout = []\<rparr>
       = Inr [[(1, [ex_sell_t0])]]
   \<and> extract_trades record_batch 3 [(1, [ex_sell_t0]), (2, []), (3, [ex_buy_t0])] []
       = Inr [[(1, [ex_sell_t0]), (3, [ex_buy_t0])]]"
proof -
  have buffered: "find_trades record_batch 3 \<lparr>type_count = 0, next_types = [], fout = []\<rparr> (1, [ex_sell_t0])
     = Inr \<lparr>type_count = 1, next_types = [(1, [ex_sell_t0])], fout = []\<rparr>"
    and all: "extract_trades record_batch 3 [(1, [ex_sell_t0]), (2, []), (3, [ex_buy_t0])] []
       = Inr [[(1, [ex_sell_t0]), (3, [ex_buy_t0])]]"
    using collector_batches [where st = "\<lparr>type_count = 0, next_types = [], fout = []\<rparr>" and n = 3
      and df = "[ex_sell_t0]" and tid = 1 and process = record_batch
      and archive = "[(1, [ex_sell_t0]), (2, []), (3, [ex_buy_t0])]" and out = "[]"]
    by (simp_all add: record_batch_def)
  have "\<exists>st'. find_trades record_batch 1
               \<lparr>type_count = 1, next_types = [(1, [ex_sell_t0])], fout = []\<rparr> (2, [ex_buy_t0])
             = Inr st' \<and> fout st' = [[(1, [ex_sell_t0])]]
             \<and> subseq (next_types st') [(2, [ex_buy_t0])]"
    using collector_batches [where st = "\<lparr>type_count = 1, next_types = [(1, [ex_sell_t0])], fout = []\<rparr>"
      and n = 1 and process = record_batch and flushed = "[[(1, [ex_sell_t0])]]"
      and offer = "(2, [ex_buy_t0])"]
    by (simp add: record_batch_def)
  then have flushed: "\<exists>st'. find_trades record_batch 1
               \<lparr>type_count = 1, next_types = [(1, [ex_sell_t0])], fout = []\<rparr> (2, [ex_buy_t0])
             = Inr st' \<and> fout st' = [[(1, [ex_sell_t0])]]"
    by blast
  have final: "end_read record_batch 3 \<lparr>type_count = 1, next_types = [(1, [ex_sell_t0])], fout = []\<rparr>
       = Inr [[(1, [ex_sell_t0])]]"
    using collector_batches [where st = "\<lparr>type_count = 1, next_types = [(1, [ex_sell_t0])], fout = []\<rparr>"
      and n = 3 and process = record_batch]
    by (simp add: record_batch_def)
  from buffered flushed final all show ?thesis by blast
qed

text \<open>
  Claim C10, as stated: offering a pair with an empty order book never changes the state
  and triggers no flush. With a batch size of 1 and one pair buffered, the offer of an
  empty order book has the buffered pair processed and resets the counter and the buffer.
\<close>

theorem empty_offer_flush_counterexample:
  "offer_all record_batch 1 \<lparr>type_count = 0, next_types = [], fout = []\<rparr> [(1, [ex_sell_t0])]
     = Inr \<lparr>type_count = 1, next_types = [(1, [ex_sell_t0])], fout = []\<rparr>
   \<and> find_trades record_batch 1
        \<lparr>type_count = 1, next_types = [(1, [ex_sell_t0])], fout = []\<rparr> (2, [])
     = Inr \<lparr>type_count = 0, next_types = [], fout = [[(1, [ex_sell_t0])]]\<rparr>
   \<and> find_trades record_batch 1
        \<lparr>type_count = 1, next_types = [(1, [ex_sell_t0])], fout = []\<rparr> (2, [])
     \<noteq> Inr \<lparr>type_count = 1, next_types = [(1, [ex_sell_t0])], fout = []\<rparr>"
  by (simp add: find_trades_def record_batch_def)

text \<open>
  Claim C10, amended. Offering a pair with an empty order book while the counter is below
  the batch size leaves the state unchanged. When the counter has reached the batch size,
  the offer has the buffered pairs processed as a batch and resets the counter and the
  buffer, as any other offer does. In no run is a pair with an empty order book part of a
  batch handed to the processing.
\<close>

theorem empty_offer:
  "(type_count st < n \<longrightarrow> find_trades process n st (tid, []) = Inr st)
   \<and> (\<not> type_count st < n \<longrightarrow>
        find_trades process n st (tid, []) =
          (case process (fout st) (next_types st) of
             Inl e \<Rightarrow> Inl e
           | Inr flushed \<Rightarrow> Inr \<lparr>type_count = 0, next_types = [], fout = flushed\<rparr>))
   \<and> (\<exists>bl. extract_trades record_batch n archive [] = Inr bl
         \<and> (tid, []) \<notin> set (concat bl)
         \<and> extract_trades process n archive (out :: 'o) = run_batches process out bl)"
proof -
  from extract_trades_record_batch [of n archive] obtain bl where
    all: "extract_trades record_batch n archive [] = Inr bl
     \<and> subseq (concat bl) (filter (\<lambda>(t, df). df \<noteq> []) archive)
     \<and> (\<forall>b\<in>set bl. length b \<le> n)
     \<and> (\<forall>process (out :: 'o). extract_trades process n archive out = run_batches process out bl)"
    by (rule exE)
  from all have run: "extract_trades record_batch n archive [] = Inr bl"
    and sub: "subseq (concat bl) (filter (\<lambda>(t, df). df \<noteq> []) archive)"
    by simp_all
  from all have sim: "extract_trades process n archive out = run_batches process out bl"
    by simp
  have "(tid, []) \<notin> set (concat bl)"
  proof
    assume "(tid, []) \<in> set (concat bl)"
    with sub obtain y where "y \<in> set (filter (\<lambda>(t, df). df \<noteq> []) archive)" "(tid, []) = y"
      by (rule list_emb_set)
    then show False by auto
  qed
  with run sim have batches: "\<exists>bl. extract_trades record_batch n archive [] = Inr bl
         \<and> (tid, []) \<notin> set (concat bl)
         \<and> extract_trades process n archive out = run_batches process out bl"
    by blast
  have below: "type_count st < n \<longrightarrow> find_trades process n st (tid, []) = Inr st"
    by (simp add: find_trades_empty)
  have full: "\<not> type_count st < n \<longrightarrow>
        find_trades process n st (tid, []) =
          (case process (fout st) (next_types st) of
             Inl e \<Rightarrow> Inl e
           | Inr flushed \<Rightarrow> Inr \<lparr>type_count = 0, next_types = [], fout = flushed\<rparr>)"
    by (simp add: find_trades_flush)
  from below full batches show ?thesis by (intro conjI)
qed


theorem empty_offer_witness:
  "find_trades record_batch 2
       \<lparr>type_count = 1, next_types = [(1, [ex_sell_t0])], fout = []\<rparr> (2, [])
     = Inr \<lparr>type_count = 1, next_types = [(1, [ex_sell_t0])], fout = []\<rparr>
   \<and> find_trades record_batch 1
       \<lparr>type_count = 1, next_types = [(1, [ex_sell_t0])], fout = []\<rparr> (2, [])
     = Inr \<lparr>type_count = 0, next_types = [], fout = [[(1, [ex_sell_t0])]]\<rparr>"
  using empty_offer [where st = "\<lparr>type_count = 1, next_types = [(1, [ex_sell_t0])], fout = []\<rparr>"
      and n = 2 and process = record_batch and tid = 2, THEN conjunct1]
    empty_offer [where st = "\<lparr>type_count = 1, next_types = [(1, [ex_sell_t0])], fout = []\<rparr>"
      and n = 1 and process = record_batch and tid = 2, THEN conjunct2, THEN conjunct1]
  by (simp add: record_batch_def)

text \<open>
  The processing of an empty batch raises IndexError, so \<open>end_read\<close> on an empty buffer
  is not a no-op.
\<close>

lemma infer_trades_helper_empty: "infer_trades_helper get_data_frame [] compute_date = Inl IndexError"
  by (simp add: infer_trades_helper_def)

lemma end_read_empty_buffer:
  "0 < n \<Longrightarrow> extract_trades (process_batch get_data_frame compute_date) n [] out = Inl IndexError"
  by (simp add: extract_trades_def end_read_def process_batch_def infer_trades_helper_empty)

section \<open>A complete run\<close>

text \<open>
  The archive holds the order book of type 34 alone; the history of the six days before
  day 20 gives the threshold 5 in region 10. The sell order went from volume 10 to 4, the
  buy order of volume 3 disappeared.
\<close>

lemma ex_full_run:
  "extract_trades (process_batch (\<lambda>dates types regions. ex_history) 20) 200
       [(34, [ex_sell_t0, ex_buy_t0, ex_sell_t1])] []
     = Inr [Line ''34'', Line ''1'', Line ''10'', Line ''2'',
            Trade_line 2000 ''True'' ''False'' 1 5 6 ''60003760'',
            Trade_line 2000 ''False'' ''True'' 2 7 3 ''None'']"
proof -
  have regions: "region_id ex_sell_t0 = 10" "region_id ex_buy_t0 = 10" "region_id ex_sell_t1 = 10"
    by (simp_all add: ex_sell_t0_def ex_buy_t0_def ex_sell_t1_def)
  have helper: "infer_trades_helper (\<lambda>dates types regions. ex_history)
       [(34, [ex_sell_t0, ex_buy_t0, ex_sell_t1])] 20 = Inr
         [\<lparr>tr_timestamp = 2000, tr_region_id = 10, tr_type_id = 34, tr_actual = True,
           tr_buy = False, tr_order_id = 1, tr_price = 5, tr_volume = 6,
           tr_location = str_int 60003760\<rparr>,
          \<lparr>tr_timestamp = 2000, tr_region_id = 10, tr_type_id = 34, tr_actual = False,
           tr_buy = True, tr_order_id = 2, tr_price = 7, tr_volume = 3,
           tr_location = ''None''\<rparr>]"
    by (simp add: infer_trades_helper_def get_market_history_def regions ex_run)
  have strs: "str_int 34 = ''34''" "str_int 10 = ''10''" "str_nat (Suc 0) = ''1''"
    "str_nat (Suc (Suc 0)) = ''2''" "str_int 60003760 = ''60003760''"
    by (simp_all add: str_int_def str_nat.simps digit_char_def)
  have "write_trades []
         [\<lparr>tr_timestamp = 2000, tr_region_id = 10, tr_type_id = 34, tr_actual = True,
           tr_buy = False, tr_order_id = 1, tr_price = 5, tr_volume = 6,
           tr_location = str_int 60003760\<rparr>,
          \<lparr>tr_timestamp = 2000, tr_region_id = 10, tr_type_id = 34, tr_actual = False,
           tr_buy = True, tr_order_id = 2, tr_price = 7, tr_volume = 3,
           tr_location = ''None''\<rparr>]
     = [Line ''34'', Line ''1'', Line ''10'', Line ''2'',
            Trade_line 2000 ''True'' ''False'' 1 5 6 ''60003760'',
            Trade_line 2000 ''False'' ''True'' 2 7 3 ''None'']"
    by (simp add: write_trades_def type_list_def write_type_def type_trades_def region_list_def
        write_region_def region_trades_of_def trade_line_def str_bool_def strs)
  then show ?thesis
    by (simp add: extract_trades_def find_trades_def end_read_def process_batch_def helper)
qed

section \<open>The history query\<close>

lemma upto_six: "[d - 6..d - 1] = [d - 6, d - 5, d - 4, d - 3, d - 2, d - 1]" for d :: int
proof -
  have "[d - 6..d - 1] = (d - 6) # [d - 5..d - 1]" by (simp add: upto_rec1)
  also have "[d - 5..d - 1] = (d - 5) # [d - 4..d - 1]" by (simp add: upto_rec1)
  also have "[d - 4..d - 1] = (d - 4) # [d - 3..d - 1]" by (simp add: upto_rec1)
  also have "[d - 3..d - 1] = (d - 3) # [d - 2..d - 1]" by (simp add: upto_rec1)
  also have "[d - 2..d - 1] = [d - 2, d - 1]" by (simp add: upto_rec1)
  finally show ?thesis .
qed

text \<open>
  The dates that \<open>get_market_history\<close> queries, for every date \<open>D\<close>: the first of them is
  \<open>D - 6\<close>, they are six, and \<open>D\<close> is not among them.
\<close>

lemma history_dates_range:
  "get_market_history get_data_frame D types regions =
     get_data_frame [D - 6, D - 5, D - 4, D - 3, D - 2, D - 1] types regions
   \<and> length (history_dates D) = 6
   \<and> set (history_dates D) = {D - 6..D - 1}
   \<and> D \<notin> set (history_dates D)"
  by (simp add: get_market_history_def history_dates_def date_range_def upto_six [symmetric])



end
